theory Spec2Isabelle
  imports Main "HOL-Library.Char_ord" "HOL-Library.List_Lexorder" "HOL-Library.Multiset"
begin

section \<open>Strings and integers of the Go runtime\<close>

text \<open>
  Go strings are byte sequences; they are modelled as \<open>string\<close> (a list of 8-bit
  characters). With \<open>Char_ord\<close> and \<open>List_Lexorder\<close> the order on \<open>string\<close> is the
  byte-wise lexicographic order that \<^verbatim>\<open>sort.Strings\<close> uses.
\<close>

text \<open>
  \<^verbatim>\<open>strings.Split(s, sep)\<close> for a non-empty separator: the pieces of \<open>s\<close> between
  the non-overlapping occurrences of \<open>sep\<close>, found from the left. The result always has
  at least one element. The program calls it with the separators \<^verbatim>\<open>":"\<close> and
  \<^verbatim>\<open>".json"\<close> only; the accumulator holds the current piece, reversed.
\<close>

function split_from :: "string \<Rightarrow> string \<Rightarrow> string \<Rightarrow> string list" where
  "split_from sep acc [] = [rev acc]"
| "split_from sep acc (c # cs) =
     (if sep \<noteq> [] \<and> take (length sep) (c # cs) = sep
      then rev acc # split_from sep [] (drop (length sep) (c # cs))
      else split_from sep (c # acc) cs)"
  by pat_completeness auto
termination
  by (relation "measure (\<lambda>(sep, acc, s). length s)") auto

definition strings_Split :: "string \<Rightarrow> string \<Rightarrow> string list" where
  "strings_Split s sep = split_from sep [] s"

text \<open>\<^verbatim>\<open>strings.HasSuffix(s, suffix)\<close>.\<close>

definition HasSuffix :: "string \<Rightarrow> string \<Rightarrow> bool" where
  "HasSuffix s suffix =
     (length suffix \<le> length s \<and> drop (length s - length suffix) s = suffix)"

text \<open>
  The Go type \<^verbatim>\<open>int\<close> is taken to be 64 bits wide (the supported server
  platforms). Values are HOL integers; \<open>wrap64\<close> is the two's-complement wrap-around
  of an arithmetic result.
\<close>

definition wrap64 :: "int \<Rightarrow> int" where
  "wrap64 i = (i + 2 ^ 63) mod 2 ^ 64 - 2 ^ 63"

definition is_digit :: "char \<Rightarrow> bool" where
  "is_digit c = (CHR ''0'' \<le> c \<and> c \<le> CHR ''9'')"

definition digit_val :: "char \<Rightarrow> nat" where
  "digit_val c = of_char c - of_char CHR ''0''"

text \<open>
  A decimal numeral: an optional sign followed by one or more decimal digits.
\<close>

fun unsigned_part :: "string \<Rightarrow> string" where
  "unsigned_part [] = []"
| "unsigned_part (c # cs) = (if c = CHR ''-'' \<or> c = CHR ''+'' then cs else c # cs)"

definition numeric :: "string \<Rightarrow> bool" where
  "numeric s = (unsigned_part s \<noteq> [] \<and> list_all is_digit (unsigned_part s))"

text \<open>
  \<^verbatim>\<open>strconv.Atoi\<close>, a function of the Go standard library, as it is implemented:
  \<^verbatim>\<open>Atoi(s)\<close> is \<^verbatim>\<open>ParseInt(s, 10, 0)\<close> (its fast path for short strings computes the
  same), which strips a sign and calls \<^verbatim>\<open>ParseUint\<close>. The error of a conversion is
  \<^verbatim>\<open>ErrSyntax\<close> or \<^verbatim>\<open>ErrRange\<close>.
\<close>

datatype conv_error = ErrSyntax | ErrRange

definition maxUint64 :: nat where
  "maxUint64 = 18446744073709551615"

text \<open>
  The loop of \<^verbatim>\<open>ParseUint\<close> in base 10 over the bytes of the string, \<open>n\<close> being the
  value read so far. A byte that is not a digit ends the loop with a syntax error and the
  value 0. When the next digit would overflow 64 bits the loop ends at once with a range
  error and the largest value: the bytes that follow are not looked at.
\<close>

fun ParseUint_loop :: "nat \<Rightarrow> string \<Rightarrow> nat \<times> conv_error option" where
  "ParseUint_loop n [] = (n, None)"
| "ParseUint_loop n (c # cs) =
     (if \<not> is_digit c then (0, Some ErrSyntax)
      else if n \<ge> maxUint64 div 10 + 1 then (maxUint64, Some ErrRange)
      else if n * 10 + digit_val c > maxUint64 then (maxUint64, Some ErrRange)
      else ParseUint_loop (n * 10 + digit_val c) cs)"

definition ParseUint :: "string \<Rightarrow> nat \<times> conv_error option" where
  "ParseUint s = (if s = [] then (0, Some ErrSyntax) else ParseUint_loop 0 s)"

text \<open>
  \<^verbatim>\<open>ParseInt\<close> for 64 bits: a syntax error gives 0, a magnitude out of range gives the
  largest or the smallest \<^verbatim>\<open>int\<close> with a range error.
\<close>

definition ParseInt :: "string \<Rightarrow> int \<times> conv_error option" where
  "ParseInt s =
     (if s = [] then (0, Some ErrSyntax)
      else case ParseUint (unsigned_part s) of
        (un, err) \<Rightarrow>
          if err = Some ErrSyntax then (0, Some ErrSyntax)
          else if hd s \<noteq> CHR ''-'' \<and> un \<ge> 2 ^ 63 then (2 ^ 63 - 1, Some ErrRange)
          else if hd s = CHR ''-'' \<and> un > 2 ^ 63 then (- (2 ^ 63), Some ErrRange)
          else (if hd s = CHR ''-'' then - int un else int un, None))"

definition Atoi :: "string \<Rightarrow> int \<times> conv_error option" where
  "Atoi s = ParseInt s"

text \<open>The verb \<^verbatim>\<open>%d\<close> of \<^verbatim>\<open>fmt.Sprintf\<close>: an integer in decimal, with a minus sign when negative.\<close>

definition digit_char :: "nat \<Rightarrow> char" where
  "digit_char n = ''0123456789'' ! (n mod 10)"

function show_nat :: "nat \<Rightarrow> string" where
  "show_nat n = (if n < 10 then [digit_char n] else show_nat (n div 10) @ [digit_char n])"
  by pat_completeness auto
termination
  by (relation "measure (\<lambda>n. n)") auto

definition show_int :: "int \<Rightarrow> string" where
  "show_int i = (if i < 0 then CHR ''-'' # show_nat (nat (- i)) else show_nat (nat i))"

section \<open>The readiness probe\<close>

text \<open>
  The outcome of building and sending one request: \<^verbatim>\<open>http.NewRequest\<close> can refuse the
  URL, \<^verbatim>\<open>Do\<close> can fail (connection refused, timeout), or a response arrives with its
  status code and the body bytes that \<^verbatim>\<open>ioutil.ReadAll\<close> returned.
\<close>

datatype http_result = RequestError | TransportError | Response int string

text \<open>
  What a run does that can be observed from outside: requests, writes that succeed,
  writes that fail after the file has been opened and truncated, changes of owner and log
  lines. A log line is kept by its fixed text and, where it names one, its file, endpoint
  or URL.
\<close>

datatype event =
    Get string
  | Written string
  | Truncated string
  | Chowned string
  | LogError string
  | LogInfo string
  | LogDebug string
  | LogFatal string
  | Stdout string

text \<open>An index out of range is a run-time panic; in a goroutine it ends the whole process.\<close>

datatype panic = IndexOutOfRange

text \<open>Lines 85 to 88 of \<^verbatim>\<open>healthyEndpoint\<close>: the URL of the probe.\<close>

definition probe_url :: "string \<Rightarrow> string \<Rightarrow> int \<Rightarrow> string" where
  "probe_url scheme endpoint portOffset =
     (let endpointSplit = strings_Split endpoint '':'';
          host = endpointSplit ! 0;
          port = fst (Atoi (endpointSplit ! 1))
      in scheme @ ''://'' @ host @ '':'' @ show_int (wrap64 (port + portOffset)) @ ''/-/ready'')"

text \<open>
  \<^verbatim>\<open>healthyEndpoint\<close>. The parameter \<open>http\<close> stands for the network: what a request with
  the given client timeout to the given URL results in (the same for every request to
  that URL while the network is in one state). The result is the panic, or what the
  goroutine sends on the channel (\<open>Some endpoint\<close>, or nothing) with the events it caused.
\<close>

definition healthyEndpoint ::
  "(int \<Rightarrow> string \<Rightarrow> http_result) \<Rightarrow> string \<Rightarrow> string \<Rightarrow> int \<Rightarrow> int \<Rightarrow> bool
     \<Rightarrow> panic + (string option \<times> event list)" where
  "healthyEndpoint http scheme endpoint timeout portOffset verbose =
     (if length (strings_Split endpoint '':'') < 2 then Inl IndexOutOfRange
      else let url = probe_url scheme endpoint portOffset in
        case http timeout url of
          RequestError \<Rightarrow> Inr (None, [LogError ''Error Occurred.''])
        | TransportError \<Rightarrow>
            Inr (None, [Get url, LogError ''Error sending request to endpoint''])
        | Response status body \<Rightarrow>
            if status = 200 \<and> body = ''OK''
            then Inr (Some endpoint,
                   Get url # (if verbose then [LogDebug (''Endpoint '' @ endpoint @ '' is ready.'')] else []))
            else Inr (None, [Get url, LogError (''Endpoint is not ready: '' @ url)]))"

section \<open>Hashring definitions and their reconciliation\<close>

text \<open>
  The struct \<^verbatim>\<open>HashringConfig\<close>. A Go slice is modelled as a list; the program only
  iterates over slices, appends to them and sorts them.
\<close>

record HashringConfig =
  Hashring :: string
  Tenants :: "string list"
  Endpoints :: "string list"

text \<open>
  One goroutine per endpoint is started (lines 136 to 139); the goroutines finish in an
  order the program does not control. \<open>probe_all\<close> runs the probes of the endpoints in
  the order in which they finish: the queue holds what was sent on the channel, in that
  order. A panic in any goroutine ends the process.
\<close>

fun probe_all ::
  "(int \<Rightarrow> string \<Rightarrow> http_result) \<Rightarrow> string \<Rightarrow> int \<Rightarrow> int \<Rightarrow> bool \<Rightarrow> string list
     \<Rightarrow> panic + (string list \<times> event list)" where
  "probe_all http scheme timeout portOffset verbose [] = Inr ([], [])"
| "probe_all http scheme timeout portOffset verbose (endpoint # rest) =
     (case healthyEndpoint http scheme endpoint timeout portOffset verbose of
        Inl p \<Rightarrow> Inl p
      | Inr (sent, evs) \<Rightarrow>
          (case probe_all http scheme timeout portOffset verbose rest of
             Inl p \<Rightarrow> Inl p
           | Inr (queue, evs') \<Rightarrow>
               Inr ((case sent of None \<Rightarrow> queue | Some e \<Rightarrow> e # queue), evs @ evs')))"

text \<open>
  A completion order is a list of positions in the endpoint list: the goroutine started
  for position \<open>ord ! 0\<close> finishes first, and so on. It is a real completion order when it
  is a permutation of the positions, that is, when sorting it gives \<open>[0..<n]\<close>.
\<close>

definition in_completion_order :: "nat list \<Rightarrow> 'a list \<Rightarrow> 'a list" where
  "in_completion_order ord xs = map (\<lambda>i. xs ! i) (filter (\<lambda>i. i < length xs) ord)"

definition completion_order :: "nat list \<Rightarrow> 'a list \<Rightarrow> bool" where
  "completion_order ord xs = (sort ord = [0..<length xs])"

text \<open>The body of the loop over the hashrings, lines 133 to 151.\<close>

definition reconcile ::
  "(int \<Rightarrow> string \<Rightarrow> http_result) \<Rightarrow> string \<Rightarrow> int \<Rightarrow> int \<Rightarrow> bool \<Rightarrow> nat list
     \<Rightarrow> HashringConfig \<Rightarrow> panic + (HashringConfig \<times> event list)" where
  "reconcile http scheme timeout portOffset verbose ord hashring =
     (case probe_all http scheme timeout portOffset verbose
             (in_completion_order ord (Endpoints hashring)) of
        Inl p \<Rightarrow> Inl p
      | Inr (queue, evs) \<Rightarrow> Inr (hashring\<lparr>Endpoints := sort queue\<rparr>, evs))"

text \<open>
  The loop of lines 132 to 152, one hashring after the other, with one completion order
  for each; when the orders run out, the probes finish in the order they were started.
\<close>

fun reconcile_all ::
  "(int \<Rightarrow> string \<Rightarrow> http_result) \<Rightarrow> string \<Rightarrow> int \<Rightarrow> int \<Rightarrow> bool \<Rightarrow> nat list list
     \<Rightarrow> HashringConfig list \<Rightarrow> panic + (HashringConfig list \<times> event list)" where
  "reconcile_all http scheme timeout portOffset verbose ords [] = Inr ([], [])"
| "reconcile_all http scheme timeout portOffset verbose ords (hashring # rest) =
     (case reconcile http scheme timeout portOffset verbose
             (case ords of [] \<Rightarrow> [0..<length (Endpoints hashring)] | ord # _ \<Rightarrow> ord) hashring of
        Inl p \<Rightarrow> Inl p
      | Inr (hashring', evs) \<Rightarrow>
          (case reconcile_all http scheme timeout portOffset verbose (tl ords) rest of
             Inl p \<Rightarrow> Inl p
           | Inr (rest', evs') \<Rightarrow> Inr (hashring' # rest', evs @ evs')))"

definition completion_orders :: "nat list list \<Rightarrow> HashringConfig list \<Rightarrow> bool" where
  "completion_orders ords hashrings =
     list_all2 (\<lambda>ord hashring. completion_order ord (Endpoints hashring)) ords hashrings"

text \<open>
  A member is ready when its probe gets status 200 and the body \<^verbatim>\<open>OK\<close>; an address
  is well formed for the probe when splitting it at the colons gives two pieces or more.
\<close>

definition has_port :: "string \<Rightarrow> bool" where
  "has_port endpoint = (2 \<le> length (strings_Split endpoint '':''))"

definition ready ::
  "(int \<Rightarrow> string \<Rightarrow> http_result) \<Rightarrow> string \<Rightarrow> int \<Rightarrow> int \<Rightarrow> string \<Rightarrow> bool" where
  "ready http scheme timeout portOffset endpoint =
     (http timeout (probe_url scheme endpoint portOffset) = Response 200 ''OK'')"

text \<open>
  What the loop body has to compute for a hashring: the same hashring with the ready
  members of its list, sorted.
\<close>

definition reconciled ::
  "(int \<Rightarrow> string \<Rightarrow> http_result) \<Rightarrow> string \<Rightarrow> int \<Rightarrow> int \<Rightarrow> HashringConfig \<Rightarrow> HashringConfig" where
  "reconciled http scheme timeout portOffset h =
     h\<lparr>Endpoints := sort (filter (ready http scheme timeout portOffset) (Endpoints h))\<rparr>"

section \<open>The file system, the operating system and the libraries\<close>

text \<open>
  A file has its bytes, whether the process may read it, its modification time and its
  owner. The world is the file system, a clock that advances with each write, and the
  trace of what has happened.
\<close>

record inode =
  content :: string
  readable :: bool
  mtime :: nat
  uid :: int
  gid :: int

record world =
  files :: "string \<Rightarrow> inode option"
  clock :: nat
  trace :: "event list"

text \<open>The type bits of \<^verbatim>\<open>os.FileMode\<close>; \<^verbatim>\<open>IsDir\<close> holds of \<open>Directory\<close> only.\<close>

datatype file_mode = Regular | Directory | Symlink | NamedPipe | Socket | Device

text \<open>
  One call of the function that \<^verbatim>\<open>filepath.Walk\<close> is given: a path with the
  \<^verbatim>\<open>Lstat\<close> information of the entry, or a path with an error.
\<close>

datatype visit = Visit string file_mode | VisitError string

text \<open>
  What the program takes from outside: the network, the decoder and encoder of
  \<^verbatim>\<open>encoding/json\<close> for the type \<^verbatim>\<open>[]HashringConfig\<close>, the digest function, the
  user database (a user's \<^verbatim>\<open>Uid\<close> and \<^verbatim>\<open>Gid\<close> strings), which paths can be written
  (opened, and the bytes written to the end), how a write that fails does fail (\<open>None\<close>:
  the file cannot be opened; \<open>Some n\<close>: the file is opened and truncated, and the error
  comes after \<open>n\<close> bytes), which ownership changes are permitted, the identity of the
  process, and the calls \<^verbatim>\<open>filepath.Walk\<close> makes on a directory of a given file system.
\<close>

record env =
  http_Do :: "int \<Rightarrow> string \<Rightarrow> http_result"
  json_Unmarshal :: "string \<Rightarrow> HashringConfig list option"
  json_Marshal :: "HashringConfig list \<Rightarrow> string option"
  sha256_Sum256 :: "string \<Rightarrow> string"
  user_Lookup :: "string \<Rightarrow> (string \<times> string) option"
  can_write :: "string \<Rightarrow> bool"
  breaks_after :: "string \<Rightarrow> nat option"
  can_chown :: "string \<Rightarrow> int \<Rightarrow> int \<Rightarrow> bool"
  process_uid :: int
  process_gid :: int
  filepath_Walk :: "(string \<Rightarrow> inode option) \<Rightarrow> string \<Rightarrow> visit list"

definition emit :: "event list \<Rightarrow> world \<Rightarrow> world" where
  "emit evs w = w\<lparr>trace := trace w @ evs\<rparr>"

text \<open>\<^verbatim>\<open>ioutil.ReadFile\<close>: the bytes of a file that exists and can be read.\<close>

definition ReadFile :: "world \<Rightarrow> string \<Rightarrow> string option" where
  "ReadFile w path =
     (case files w path of
        None \<Rightarrow> None
      | Some f \<Rightarrow> if readable f then Some (content f) else None)"

text \<open>
  \<^verbatim>\<open>ioutil.WriteFile(path, data, 0644)\<close> opens the file with \<^verbatim>\<open>O_CREATE\<close> and
  \<^verbatim>\<open>O_TRUNC\<close>, writes the bytes and closes it. \<open>stored\<close> is the file system once the
  file holds the given bytes: a new file is readable and owned by the process, a file that
  existed keeps its mode and owner; the modification time is set. The call returns
  whether it succeeded, and the world after it. When the file cannot be opened the call
  fails and nothing changes; when the error comes after the file was opened, the call
  fails and the file holds only the bytes written so far: what it held before is lost.
\<close>

definition stored :: "env \<Rightarrow> string \<Rightarrow> string \<Rightarrow> world \<Rightarrow> string \<Rightarrow> inode option" where
  "stored e path bytes w =
     (files w)(path \<mapsto>
       (case files w path of
          None \<Rightarrow> \<lparr>content = bytes, readable = True, mtime = clock w,
                   uid = process_uid e, gid = process_gid e\<rparr>
        | Some f \<Rightarrow> f\<lparr>content := bytes, mtime := clock w\<rparr>))"

definition WriteFile :: "env \<Rightarrow> string \<Rightarrow> string \<Rightarrow> world \<Rightarrow> bool \<times> world" where
  "WriteFile e path data w =
     (if can_write e path
      then (True, w\<lparr>files := stored e path data w, clock := Suc (clock w),
                     trace := trace w @ [Written path]\<rparr>)
      else case breaks_after e path of
             None \<Rightarrow> (False, w)
           | Some n \<Rightarrow>
               (False, w\<lparr>files := stored e path (take n data) w, clock := Suc (clock w),
                          trace := trace w @ [Truncated path]\<rparr>))"

text \<open>\<^verbatim>\<open>os.Chown\<close>.\<close>

definition Chown :: "env \<Rightarrow> string \<Rightarrow> int \<Rightarrow> int \<Rightarrow> world \<Rightarrow> world option" where
  "Chown e path u g w =
     (case files w path of
        None \<Rightarrow> None
      | Some f \<Rightarrow>
          if \<not> can_chown e path u g then None
          else Some (w\<lparr>files := (files w)(path \<mapsto> f\<lparr>uid := u, gid := g\<rparr>),
                       trace := trace w @ [Chowned path]\<rparr>))"

section \<open>Writing the generated file\<close>

text \<open>\<^verbatim>\<open>saveHashringFile\<close>, lines 60 to 81.\<close>

definition saveHashringFile :: "env \<Rightarrow> string \<Rightarrow> string \<Rightarrow> string \<Rightarrow> world \<Rightarrow> world" where
  "saveHashringFile e file owner data w =
     (case user_Lookup e owner of
        None \<Rightarrow> emit [LogError (''Cannot save file '' @ file)] w
      | Some (Uid, Gid) \<Rightarrow>
          (case WriteFile e file data w of
             (ok, w1) \<Rightarrow>
               if \<not> ok then emit [LogError (''Cannot save file '' @ file)] w1
               else (case Chown e file (fst (Atoi Uid)) (fst (Atoi Gid)) w1 of
                       None \<Rightarrow> emit [LogError (''Cannot set '' @ owner @ '' owner on file '' @ file)] w1
                     | Some w2 \<Rightarrow> emit [LogInfo (''File '' @ file @ '' saved.'')] w2)))"

text \<open>Line 165: the name of the generated file.\<close>

definition generatedFile :: "string \<Rightarrow> string" where
  "generatedFile file = (strings_Split file ''.json'' ! 0) @ ''_generated.json''"

text \<open>
  Lines 154 to 191 of \<^verbatim>\<open>checkHashringFile\<close>: encode, compare the digest with the
  digest of the generated file that exists, save when they differ.
\<close>

definition materialize ::
  "env \<Rightarrow> string \<Rightarrow> string \<Rightarrow> bool \<Rightarrow> HashringConfig list \<Rightarrow> world \<Rightarrow> world" where
  "materialize e file owner verbose hashrings w =
     (case json_Marshal e hashrings of
        None \<Rightarrow> emit [LogError ''Error Occurred.''] w
      | Some data \<Rightarrow>
          if files w (generatedFile file) \<noteq> None
          then (case ReadFile w (generatedFile file) of
                  None \<Rightarrow> emit [LogError (''Unable to read file '' @ file)] w
                | Some body \<Rightarrow>
                    if sha256_Sum256 e body = sha256_Sum256 e data
                    then emit (if verbose
                               then [LogDebug (''Hashring file '' @ generatedFile file @ '' is OK, no update needed'')]
                               else []) w
                    else saveHashringFile e (generatedFile file) owner data w)
          else saveHashringFile e (generatedFile file) owner data w)"

text \<open>
  \<^verbatim>\<open>checkHashringFile\<close>, lines 115 to 192. \<open>ords\<close> gives the completion order of the
  probes of each hashring of the file.
\<close>

definition checkHashringFile ::
  "env \<Rightarrow> string \<Rightarrow> string \<Rightarrow> string \<Rightarrow> int \<Rightarrow> int \<Rightarrow> bool \<Rightarrow> nat list list \<Rightarrow> world
     \<Rightarrow> panic + world" where
  "checkHashringFile e file owner scheme endpointTimeout portOffset verbose ords w =
     (case ReadFile w file of
        None \<Rightarrow> Inr (emit [LogError (''Unable to read file '' @ file)] w)
      | Some body \<Rightarrow>
          (case json_Unmarshal e body of
             None \<Rightarrow> Inr (emit [LogError (''Unable to json decode file '' @ file)] w)
           | Some hashrings \<Rightarrow>
               (case reconcile_all (http_Do e) scheme endpointTimeout portOffset verbose ords hashrings of
                  Inl p \<Rightarrow> Inl p
                | Inr (hashrings', evs) \<Rightarrow>
                    Inr (materialize e file owner verbose hashrings' (emit evs w)))))"

section \<open>Finding the hashring files and running a pass\<close>

text \<open>
  The function literal that \<^verbatim>\<open>listHashringFiles\<close> gives to \<^verbatim>\<open>filepath.Walk\<close>
  (lines 196 to 205), applied to the calls in turn: an error stops the walk, an entry that
  is not a directory and whose path has the right suffixes is appended. The result is the
  list of files and whether the walk ended without error.
\<close>

fun walk_calls :: "visit list \<Rightarrow> string list \<Rightarrow> string list \<times> bool" where
  "walk_calls [] found = (found, True)"
| "walk_calls (VisitError path # rest) found = (found, False)"
| "walk_calls (Visit path mode # rest) found =
     walk_calls rest
       (if mode \<noteq> Directory \<and> \<not> HasSuffix path ''_generated.json'' \<and> HasSuffix path ''.json''
        then found @ [path] else found)"

definition listHashringFiles :: "env \<Rightarrow> string \<Rightarrow> world \<Rightarrow> string list \<times> world" where
  "listHashringFiles e directory w =
     (case walk_calls (filepath_Walk e (files w) directory) [] of
        (found, ok) \<Rightarrow> (found, if ok then w else emit [LogError ''walk''] w))"

text \<open>
  \<^verbatim>\<open>run\<close>, lines 212 to 220. The goroutines of the files are run one after the other,
  in the order of the list: one of the interleavings the program allows. \<open>ordss\<close> gives
  the completion orders for each file.
\<close>

fun run ::
  "env \<Rightarrow> string list \<Rightarrow> string \<Rightarrow> string \<Rightarrow> int \<Rightarrow> int \<Rightarrow> bool \<Rightarrow> nat list list list \<Rightarrow> world
     \<Rightarrow> panic + world" where
  "run e [] owner scheme timeout portOffset verbose ordss w = Inr w"
| "run e (file # rest) owner scheme timeout portOffset verbose ordss w =
     (case checkHashringFile e file owner scheme timeout portOffset verbose
             (case ordss of [] \<Rightarrow> [] | ords # _ \<Rightarrow> ords) w of
        Inl p \<Rightarrow> Inl p
      | Inr w' \<Rightarrow> run e rest owner scheme timeout portOffset verbose (tl ordss) w')"

text \<open>\<^verbatim>\<open>buildFilesList\<close>, lines 222 to 233.\<close>

definition buildFilesList :: "env \<Rightarrow> string \<Rightarrow> string \<Rightarrow> bool \<Rightarrow> world \<Rightarrow> string list \<times> world" where
  "buildFilesList e directory file verbose w =
     (case (if file \<noteq> [] then ([file], w) else listHashringFiles e directory w) of
        (hashringFiles, w1) \<Rightarrow>
          (hashringFiles, if verbose then emit [LogDebug ''Watching files''] w1 else w1))"

section \<open>The command line and the start of the program\<close>

text \<open>The flags of \<^verbatim>\<open>main\<close>, lines 240 to 249, after \<^verbatim>\<open>flag.Parse\<close>.\<close>

record config =
  flag_file :: string
  flag_directory :: string
  flag_owner :: string
  flag_endpoint_scheme :: string
  flag_endpoint_timeout :: int
  flag_endpoint_port_offset :: int
  flag_interval :: int
  flag_schedule :: bool
  flag_verbose :: bool
  flag_version :: bool







definition requests :: "event list \<Rightarrow> string list" where
  "requests evs = concat (map (\<lambda>ev. case ev of Get url \<Rightarrow> [url] | _ \<Rightarrow> []) evs)"

definition writes :: "event list \<Rightarrow> string list" where
  "writes evs = concat (map (\<lambda>ev. case ev of Written path \<Rightarrow> [path] | _ \<Rightarrow> []) evs)"

definition error_lines :: "event list \<Rightarrow> string list" where
  "error_lines evs = concat (map (\<lambda>ev. case ev of LogError msg \<Rightarrow> [msg] | _ \<Rightarrow> []) evs)"

section \<open>The scheduler\<close>

text \<open>
  With \<^verbatim>\<open>--schedule\<close>, lines 272 to 303 start three goroutines: the scheduler loop
  (lines 275 to 286), the signal handler (lines 294 to 299) and \<^verbatim>\<open>main\<close> itself, which
  waits on \<^verbatim>\<open>signalDone\<close> (line 302) and then returns. A Go process ends when \<^verbatim>\<open>main\<close>
  returns, whatever its other goroutines are doing. The state of the three: the world,
  the run in flight (the files it has still to process, with their completion orders),
  whether \<^verbatim>\<open>signalDone\<close> holds a value, and whether the process has ended.
\<close>

record scheduler =
  sched_world :: world
  in_flight :: "(string list \<times> nat list list list) option"
  signalDone :: bool
  exited :: bool

definition sched_start :: "world \<Rightarrow> scheduler" where
  "sched_start w = \<lparr>sched_world = w, in_flight = None, signalDone = False, exited = False\<rparr>"

text \<open>
  The steps of the process. \<open>tick\<close>: the ticker fires while the loop waits in its
  \<^verbatim>\<open>select\<close>; the files are listed and a run starts (lines 280 to 283). \<open>progress\<close>: the
  run in flight processes its next file. \<open>crash\<close>: a probe of that file panics.
  \<open>finish\<close>: the run has processed its files and the loop is back at the \<^verbatim>\<open>select\<close>.
  \<open>signal\<close>: a signal arrives and the handler sends on \<^verbatim>\<open>signalDone\<close> (lines 295 to
  298). \<open>stop\<close>: \<^verbatim>\<open>main\<close> receives from \<^verbatim>\<open>signalDone\<close>, logs and returns (lines 302 to
  304). Nothing is ever sent on \<^verbatim>\<open>scheduleDone\<close>, so the first case of the \<^verbatim>\<open>select\<close>
  gives no step. A process that has ended makes no step.
\<close>

inductive sched_step :: "env \<Rightarrow> config \<Rightarrow> scheduler \<Rightarrow> scheduler \<Rightarrow> bool" for e c where
  tick:
    "\<not> exited s \<Longrightarrow> in_flight s = None \<Longrightarrow>
     buildFilesList e (flag_directory c) (flag_file c) (flag_verbose c)
       (emit [LogInfo ''Tick''] (sched_world s)) = (hashringFiles, w1) \<Longrightarrow>
     sched_step e c s (s\<lparr>sched_world := w1, in_flight := Some (hashringFiles, ordss)\<rparr>)"
| progress:
    "\<not> exited s \<Longrightarrow> in_flight s = Some (file # rest, ordss) \<Longrightarrow>
     checkHashringFile e file (flag_owner c) (flag_endpoint_scheme c) (flag_endpoint_timeout c)
       (flag_endpoint_port_offset c) (flag_verbose c)
       (case ordss of [] \<Rightarrow> [] | ords # _ \<Rightarrow> ords) (sched_world s) = Inr w' \<Longrightarrow>
     sched_step e c s (s\<lparr>sched_world := w', in_flight := Some (rest, tl ordss)\<rparr>)"
| crash:
    "\<not> exited s \<Longrightarrow> in_flight s = Some (file # rest, ordss) \<Longrightarrow>
     checkHashringFile e file (flag_owner c) (flag_endpoint_scheme c) (flag_endpoint_timeout c)
       (flag_endpoint_port_offset c) (flag_verbose c)
       (case ordss of [] \<Rightarrow> [] | ords # _ \<Rightarrow> ords) (sched_world s) = Inl p \<Longrightarrow>
     sched_step e c s (s\<lparr>exited := True\<rparr>)"
| finish:
    "\<not> exited s \<Longrightarrow> in_flight s = Some ([], ordss) \<Longrightarrow>
     sched_step e c s (s\<lparr>in_flight := None\<rparr>)"
| signal:
    "\<not> exited s \<Longrightarrow> \<not> signalDone s \<Longrightarrow>
     sched_step e c s (s\<lparr>signalDone := True\<rparr>)"
| stop:
    "\<not> exited s \<Longrightarrow> signalDone s \<Longrightarrow>
     sched_step e c s
       (s\<lparr>sched_world := emit [LogInfo ''Scheduler Stopped...''] (sched_world s), exited := True\<rparr>)"

section \<open>A concrete installation\<close>

text \<open>
  The example of the README: one hashring file with the receivers \<^verbatim>\<open>a\<close>, \<^verbatim>\<open>b\<close> and
  \<^verbatim>\<open>c\<close>. Receivers \<^verbatim>\<open>a\<close> and \<^verbatim>\<open>c\<close> answer on port 10902 that they are ready,
  \<^verbatim>\<open>b\<close> cannot be reached.
\<close>

definition demo_http :: "int \<Rightarrow> string \<Rightarrow> http_result" where
  "demo_http timeout url =
     (if url = ''http://a:10902/-/ready'' \<or> url = ''http://c:10902/-/ready''
      then Response 200 ''OK''
      else if url = ''http://d:10902/-/ready'' then Response 503 ''starting''
      else TransportError)"

definition demo_source :: string where
  \<open>demo_source = ''[{"endpoints":["a:10901","b:10901","c:10901"]}]''\<close>

definition demo_hashrings :: "HashringConfig list" where
  "demo_hashrings = [\<lparr>Hashring = [], Tenants = [], Endpoints = [''a:10901'', ''b:10901'', ''c:10901'']\<rparr>]"

text \<open>
  The encoder of the example writes what \<^verbatim>\<open>json.Marshal\<close> writes for strings that need
  no escaping: fields tagged \<^verbatim>\<open>omitempty\<close> are left out when empty, and a slice that
  was never appended to is \<^verbatim>\<open>null\<close>.
\<close>

fun join_with :: "string \<Rightarrow> string list \<Rightarrow> string" where
  "join_with sep [] = []"
| "join_with sep [x] = x"
| "join_with sep (x # y # ys) = x @ sep @ join_with sep (y # ys)"

definition quoted :: "string \<Rightarrow> string" where
  \<open>quoted s = ''"'' @ s @ ''"''\<close>

definition encode_strings :: "string list \<Rightarrow> string" where
  "encode_strings xs = ''['' @ join_with '','' (map quoted xs) @ '']''"

definition encode_hashring :: "HashringConfig \<Rightarrow> string" where
  "encode_hashring h =
     ''{'' @ join_with '',''
       ((if Hashring h = [] then [] else [quoted ''hashring'' @ '':'' @ quoted (Hashring h)]) @
        (if Tenants h = [] then [] else [quoted ''tenants'' @ '':'' @ encode_strings (Tenants h)]) @
        [quoted ''endpoints'' @ '':'' @
           (if Endpoints h = [] then ''null'' else encode_strings (Endpoints h))]) @ ''}''"

definition demo_Marshal :: "HashringConfig list \<Rightarrow> string option" where
  "demo_Marshal hs = Some (''['' @ join_with '','' (map encode_hashring hs) @ '']'')"

definition demo_path :: string where
  "demo_path = ''/etc/thanos/hashring.json''"

text \<open>
  The rest of the installation: the user \<^verbatim>\<open>thanos\<close> exists, everything can be written
  but the directory \<^verbatim>\<open>/ro\<close>, where no file can be opened for writing, the digest of the example is the identity (no two
  contents share a digest), and the directory \<^verbatim>\<open>/etc/thanos\<close> holds the hashring file,
  a generated file, a symbolic link and a subdirectory.
\<close>

definition demo_env :: env where
  "demo_env =
     \<lparr>http_Do = demo_http,
      json_Unmarshal = (\<lambda>body. if body = demo_source then Some demo_hashrings else None),
      json_Marshal = demo_Marshal,
      sha256_Sum256 = (\<lambda>bytes. bytes),
      user_Lookup = (\<lambda>name. if name = ''thanos'' then Some (''1000'', ''1000'') else None),
      can_write = (\<lambda>path. take 4 path \<noteq> ''/ro/''),
      breaks_after = (\<lambda>path. None),
      can_chown = (\<lambda>path u g. True),
      process_uid = 0,
      process_gid = 0,
      filepath_Walk = (\<lambda>fs directory.
        [Visit ''/etc/thanos'' Directory,
         Visit ''/etc/thanos/current.json'' Symlink,
         Visit ''/etc/thanos/hashring.json'' Regular,
         Visit ''/etc/thanos/hashring_generated.json'' Regular,
         Visit ''/etc/thanos/old.json'' Directory])\<rparr>"

definition demo_world :: world where
  "demo_world =
     \<lparr>files = [demo_path \<mapsto> \<lparr>content = demo_source, readable = True, mtime = 0, uid = 0, gid = 0\<rparr>],
      clock = 1,
      trace = []\<rparr>"

definition demo_config :: config where
  "demo_config =
     \<lparr>flag_file = demo_path, flag_directory = [], flag_owner = ''thanos'',
      flag_endpoint_scheme = ''http'', flag_endpoint_timeout = 5, flag_endpoint_port_offset = 1,
      flag_interval = 10, flag_schedule = False, flag_verbose = False, flag_version = False\<rparr>"

text \<open>
  The generated file of the example and its bytes once \<^verbatim>\<open>a\<close> and \<^verbatim>\<open>c\<close> have been
  found ready; the world after a first pass in which \<^verbatim>\<open>c\<close> answered first, then
  \<^verbatim>\<open>a\<close>, then the request to \<^verbatim>\<open>b\<close> failed.
\<close>

definition demo_generated :: string where
  "demo_generated = ''/etc/thanos/hashring_generated.json''"

definition demo_derived :: string where
  \<open>demo_derived = ''[{"endpoints":["a:10901","c:10901"]}]''\<close>

definition demo_world_after :: world where
  "demo_world_after =
     \<lparr>files = [demo_path \<mapsto> \<lparr>content = demo_source, readable = True, mtime = 0, uid = 0, gid = 0\<rparr>,
               demo_generated \<mapsto> \<lparr>content = demo_derived, readable = True, mtime = 1, uid = 1000, gid = 1000\<rparr>],
      clock = 2,
      trace = [Get ''http://c:10902/-/ready'', Get ''http://a:10902/-/ready'',
               Get ''http://b:10902/-/ready'', LogError ''Error sending request to endpoint'',
               Written demo_generated, Chowned demo_generated,
               LogInfo (''File '' @ demo_generated @ '' saved.'')]\<rparr>"

text \<open>
  The installation at a later time: an earlier pass, when all three receivers were ready,
  has left a generated file. And two variants of the installation: one where no file can
  be opened for writing, and one with a full disk, where a file is opened and truncated
  and the write then fails before its first byte.
\<close>

definition stale_derived :: string where
  \<open>stale_derived = ''[{"endpoints":["a:10901","b:10901","c:10901"]}]''\<close>

definition stale_world :: world where
  "stale_world =
     \<lparr>files = [demo_path \<mapsto> \<lparr>content = demo_source, readable = True, mtime = 0, uid = 0, gid = 0\<rparr>,
               demo_generated \<mapsto> \<lparr>content = stale_derived, readable = True, mtime = 1, uid = 1000, gid = 1000\<rparr>],
      clock = 2,
      trace = []\<rparr>"

definition readonly_env :: env where
  "readonly_env = demo_env\<lparr>can_write := (\<lambda>path. False)\<rparr>"

definition full_disk_env :: env where
  "full_disk_env = demo_env\<lparr>can_write := (\<lambda>path. False), breaks_after := (\<lambda>path. Some 0)\<rparr>"

definition probe_events :: "event list" where
  "probe_events =
     [Get ''http://c:10902/-/ready'', Get ''http://a:10902/-/ready'',
      Get ''http://b:10902/-/ready'', LogError ''Error sending request to endpoint'']"

definition full_disk_world :: world where
  "full_disk_world =
     \<lparr>files = [demo_path \<mapsto> \<lparr>content = demo_source, readable = True, mtime = 0, uid = 0, gid = 0\<rparr>,
               demo_generated \<mapsto> \<lparr>content = [], readable = True, mtime = 2, uid = 1000, gid = 1000\<rparr>],
      clock = 3,
      trace = probe_events @
              [Truncated demo_generated, LogError (''Cannot save file '' @ demo_generated)]\<rparr>"




definition sched_config :: config where
  "sched_config = demo_config\<lparr>flag_schedule := True\<rparr>"

section \<open>Facts about the strings and the probe\<close>

lemma length_split_from_char:
  "length (split_from [c] acc s) = Suc (count_list s c)"
  by (induction s arbitrary: acc) auto

lemma has_port_iff: "has_port endpoint \<longleftrightarrow> CHR '':'' \<in> set endpoint"
  using count_list_0_iff [of endpoint "CHR '':''"]
  by (auto simp: has_port_def strings_Split_def length_split_from_char Suc_le_eq)

lemma digit_val_le: "is_digit c \<Longrightarrow> digit_val c \<le> 9"
  by (auto simp: is_digit_def digit_val_def less_eq_char_def)

lemma ParseUint_loop_syntax:
  "\<not> list_all is_digit s \<Longrightarrow> length (takeWhile is_digit s) \<le> 19 \<Longrightarrow>
   n < 10 ^ (19 - length (takeWhile is_digit s)) \<Longrightarrow>
   ParseUint_loop n s = (0, Some ErrSyntax)"
proof (induction s arbitrary: n)
  case Nil
  then show ?case by simp
next
  case (Cons c cs)
  show ?case
  proof (cases "is_digit c")
    case False
    then show ?thesis by simp
  next
    case True
    define k where "k = length (takeWhile is_digit cs)"
    from True Cons.prems(2) have k: "k \<le> 18" by (simp add: k_def)
    from True Cons.prems(3) have n: "n < 10 ^ (18 - k)" by (simp add: k_def)
    have "(10::nat) ^ (18 - k) \<le> 10 ^ 18" by (rule power_increasing) simp_all
    with n have small: "n < 10 ^ 18" by simp
    have d: "digit_val c \<le> 9" using True by (rule digit_val_le)
    from k have "(10::nat) ^ (19 - k) = 10 * 10 ^ (18 - k)"
      by (metis Suc_diff_le eval_nat_numeral(3) power_Suc)
    with n d have next_n: "n * 10 + digit_val c < 10 ^ (19 - k)" by simp
    from small d have a: "\<not> n \<ge> maxUint64 div 10 + 1" and b: "\<not> n * 10 + digit_val c > maxUint64"
      by (simp_all add: maxUint64_def)
    from True Cons.prems(1) have "\<not> list_all is_digit cs" by simp
    moreover from k have "length (takeWhile is_digit cs) \<le> 19" by (simp add: k_def)
    moreover from next_n have "n * 10 + digit_val c < 10 ^ (19 - length (takeWhile is_digit cs))"
      by (simp add: k_def)
    ultimately have "ParseUint_loop (n * 10 + digit_val c) cs = (0, Some ErrSyntax)"
      by (rule Cons.IH)
    with True a b show ?thesis by simp
  qed
qed

lemma Atoi_syntax_error:
  assumes "\<not> numeric s" and "length (takeWhile is_digit (unsigned_part s)) \<le> 19"
  shows "Atoi s = (0, Some ErrSyntax)"
proof (cases "unsigned_part s = []")
  case True
  then show ?thesis by (simp add: Atoi_def ParseInt_def ParseUint_def)
next
  case False
  with assms(1) have "\<not> list_all is_digit (unsigned_part s)" by (simp add: numeric_def)
  from ParseUint_loop_syntax [OF this assms(2), of 0]
  have "ParseUint (unsigned_part s) = (0, Some ErrSyntax)"
    using False by (simp add: ParseUint_def)
  then show ?thesis by (simp add: Atoi_def ParseInt_def)
qed

lemma healthyEndpoint_has_port:
  "has_port endpoint \<Longrightarrow>
   \<exists>evs. healthyEndpoint http scheme endpoint timeout portOffset verbose =
     Inr (if ready http scheme timeout portOffset endpoint then Some endpoint else None, evs)"
  by (auto simp: healthyEndpoint_def has_port_def ready_def Let_def split: http_result.splits)

lemma healthyEndpoint_no_port:
  "\<not> has_port endpoint \<Longrightarrow>
   healthyEndpoint http scheme endpoint timeout portOffset verbose = Inl IndexOutOfRange"
  by (simp add: healthyEndpoint_def has_port_def)

lemma probe_all_total:
  "list_all has_port xs \<Longrightarrow>
   \<exists>evs. probe_all http scheme timeout portOffset verbose xs =
     Inr (filter (ready http scheme timeout portOffset) xs, evs)"
proof (induction xs)
  case Nil
  then show ?case by simp
next
  case (Cons x xs)
  then obtain evs where tl: "probe_all http scheme timeout portOffset verbose xs =
     Inr (filter (ready http scheme timeout portOffset) xs, evs)"
    by auto
  from Cons.prems have "has_port x" by simp
  from healthyEndpoint_has_port [OF this, of http scheme timeout portOffset verbose]
  obtain evs0 where "healthyEndpoint http scheme x timeout portOffset verbose =
     Inr (if ready http scheme timeout portOffset x then Some x else None, evs0)"
    by blast
  with tl show ?case by simp
qed

lemma probe_all_panic:
  "\<not> list_all has_port xs \<Longrightarrow>
   probe_all http scheme timeout portOffset verbose xs = Inl IndexOutOfRange"
proof (induction xs)
  case Nil
  then show ?case by simp
next
  case (Cons x xs)
  show ?case
  proof (cases "has_port x")
    case False
    then show ?thesis by (simp add: healthyEndpoint_no_port)
  next
    case True
    with Cons have "probe_all http scheme timeout portOffset verbose xs = Inl IndexOutOfRange"
      by simp
    moreover from healthyEndpoint_has_port [OF True, of http scheme timeout portOffset verbose]
    obtain r evs0 where "healthyEndpoint http scheme x timeout portOffset verbose = Inr (r, evs0)"
      by blast
    ultimately show ?thesis by simp
  qed
qed

lemma mset_in_completion_order:
  assumes "completion_order ord xs"
  shows "mset (in_completion_order ord xs) = mset xs"
proof -
  from assms have ms: "mset ord = mset [0..<length xs]"
    unfolding completion_order_def by (metis mset_sort)
  then have "set ord = {0..<length xs}"
    by (metis mset_eq_setD set_upt)
  then have "filter (\<lambda>i. i < length xs) ord = ord"
    by (auto simp: filter_id_conv)
  then have "mset (in_completion_order ord xs) = image_mset ((!) xs) (mset ord)"
    by (simp add: in_completion_order_def)
  also have "\<dots> = mset (map ((!) xs) [0..<length xs])"
    by (simp add: ms)
  finally show ?thesis by (simp add: map_nth)
qed

lemma list_all_mset_cong:
  "mset xs = mset ys \<Longrightarrow> list_all P xs = list_all P ys"
  by (metis list_all_iff mset_eq_setD)

lemma sort_filter_mset_cong:
  fixes xs ys :: "'a::linorder list"
  assumes "mset xs = mset ys"
  shows "sort (filter P xs) = sort (filter P ys)"
proof -
  have "mset (filter P xs) = mset (filter P ys)"
    using assms by (metis mset_filter)
  then show ?thesis
    by (metis properties_for_sort mset_sort sorted_sort)
qed

lemma reconcile_result:
  assumes "completion_order ord (Endpoints h)"
  shows "list_all has_port (Endpoints h) \<Longrightarrow>
           \<exists>evs. reconcile http scheme timeout portOffset verbose ord h =
             Inr (h\<lparr>Endpoints := sort (filter (ready http scheme timeout portOffset) (Endpoints h))\<rparr>, evs)"
    and "\<not> list_all has_port (Endpoints h) \<Longrightarrow>
           reconcile http scheme timeout portOffset verbose ord h = Inl IndexOutOfRange"
proof -
  let ?xs = "in_completion_order ord (Endpoints h)"
  have ms: "mset ?xs = mset (Endpoints h)"
    by (rule mset_in_completion_order [OF assms])
  {
    assume "list_all has_port (Endpoints h)"
    then have "list_all has_port ?xs"
      using list_all_mset_cong [OF ms] by simp
    from probe_all_total [OF this, of http scheme timeout portOffset verbose]
    obtain evs where "probe_all http scheme timeout portOffset verbose ?xs =
       Inr (filter (ready http scheme timeout portOffset) ?xs, evs)" by blast
    then show "\<exists>evs. reconcile http scheme timeout portOffset verbose ord h =
             Inr (h\<lparr>Endpoints := sort (filter (ready http scheme timeout portOffset) (Endpoints h))\<rparr>, evs)"
      by (simp add: reconcile_def sort_filter_mset_cong [OF ms])
  }
  {
    assume "\<not> list_all has_port (Endpoints h)"
    then have "\<not> list_all has_port ?xs"
      using list_all_mset_cong [OF ms] by simp
    from probe_all_panic [OF this]
    show "reconcile http scheme timeout portOffset verbose ord h = Inl IndexOutOfRange"
      by (simp add: reconcile_def)
  }
qed

lemma reconcile_all_result:
  "completion_orders ords hs \<Longrightarrow> list_all (\<lambda>h. list_all has_port (Endpoints h)) hs \<Longrightarrow>
   \<exists>evs. reconcile_all http scheme timeout portOffset verbose ords hs =
     Inr (map (reconciled http scheme timeout portOffset) hs, evs)"
proof (induction hs arbitrary: ords)
  case Nil
  then show ?case by simp
next
  case (Cons h hs)
  from Cons.prems(1) obtain ord rest where ords: "ords = ord # rest"
    and ord: "completion_order ord (Endpoints h)" and rest: "completion_orders rest hs"
    by (auto simp: completion_orders_def list_all2_Cons2)
  from Cons.prems(2) have ports: "list_all has_port (Endpoints h)"
    and ports': "list_all (\<lambda>h. list_all has_port (Endpoints h)) hs" by simp_all
  from reconcile_result(1) [OF ord ports, of http scheme timeout portOffset verbose]
  obtain evs0 where "reconcile http scheme timeout portOffset verbose ord h =
     Inr (reconciled http scheme timeout portOffset h, evs0)"
    by (auto simp: reconciled_def)
  moreover from Cons.IH [OF rest ports'] obtain evs1 where
    "reconcile_all http scheme timeout portOffset verbose rest hs =
       Inr (map (reconciled http scheme timeout portOffset) hs, evs1)" by blast
  ultimately show ?case by (simp add: ords)
qed

lemma reconcile_all_panic:
  "completion_orders ords hs \<Longrightarrow> \<not> list_all (\<lambda>h. list_all has_port (Endpoints h)) hs \<Longrightarrow>
   reconcile_all http scheme timeout portOffset verbose ords hs = Inl IndexOutOfRange"
proof (induction hs arbitrary: ords)
  case Nil
  then show ?case by simp
next
  case (Cons h hs)
  from Cons.prems(1) obtain ord rest where ords: "ords = ord # rest"
    and ord: "completion_order ord (Endpoints h)" and rest: "completion_orders rest hs"
    by (auto simp: completion_orders_def list_all2_Cons2)
  show ?case
  proof (cases "list_all has_port (Endpoints h)")
    case False
    from reconcile_result(2) [OF ord False] show ?thesis by (simp add: ords)
  next
    case True
    with Cons.prems(2) have "\<not> list_all (\<lambda>h. list_all has_port (Endpoints h)) hs" by simp
    from Cons.IH [OF rest this]
    have "reconcile_all http scheme timeout portOffset verbose rest hs = Inl IndexOutOfRange" .
    moreover from reconcile_result(1) [OF ord True, of http scheme timeout portOffset verbose]
    obtain h' evs0 where "reconcile http scheme timeout portOffset verbose ord h = Inr (h', evs0)"
      by blast
    ultimately show ?thesis by (simp add: ords)
  qed
qed

lemma reconcile_all_frame:
  "reconcile_all http scheme timeout portOffset verbose ords hs = Inr (hs', evs) \<Longrightarrow>
   list_all2 (\<lambda>h h'. \<exists>eps. h' = h\<lparr>Endpoints := eps\<rparr>) hs hs'"
proof (induction hs arbitrary: ords hs' evs)
  case Nil
  then show ?case by simp
next
  case (Cons h hs)
  then show ?case
    by (auto simp: reconcile_def split: sum.splits prod.splits)
qed

section \<open>Facts about the file system and the generated file\<close>

lemma emit_simps [simp]:
  "files (emit evs w) = files w"
  "clock (emit evs w) = clock w"
  "trace (emit evs w) = trace w @ evs"
  by (simp_all add: emit_def)

lemma ReadFile_emit [simp]: "ReadFile (emit evs w) path = ReadFile w path"
  by (simp add: ReadFile_def)

lemma ReadFile_cong: "files w' path = files w path \<Longrightarrow> ReadFile w' path = ReadFile w path"
  by (simp add: ReadFile_def)

lemma writes_append [simp]: "writes (xs @ ys) = writes xs @ writes ys"
  by (simp add: writes_def)

lemma writes_simps [simp]:
  "writes [] = []"
  "writes (Written path # evs) = path # writes evs"
  "writes (Get url # evs) = writes evs"
  "writes (Truncated path # evs) = writes evs"
  "writes (Chowned path # evs) = writes evs"
  "writes (LogError msg # evs) = writes evs"
  "writes (LogInfo msg # evs) = writes evs"
  "writes (LogDebug msg # evs) = writes evs"
  "writes (LogFatal msg # evs) = writes evs"
  "writes (Stdout msg # evs) = writes evs"
  by (simp_all add: writes_def)

lemma saveHashringFile_fails:
  assumes "user_Lookup e owner = None \<or> \<not> can_write e file \<and> breaks_after e file = None"
  shows "files (saveHashringFile e file owner data w) = files w"
    and "clock (saveHashringFile e file owner data w) = clock w"
    and "trace (saveHashringFile e file owner data w) = trace w @ [LogError (''Cannot save file '' @ file)]"
  using assms by (auto simp: saveHashringFile_def WriteFile_def split: option.splits)

lemma saveHashringFile_saves:
  assumes "user_Lookup e owner = Some ug" and "can_write e file"
  shows "\<exists>f. files (saveHashringFile e file owner data w) file = Some f \<and> content f = data
           \<and> readable f = (case files w file of None \<Rightarrow> True | Some f0 \<Rightarrow> readable f0)
           \<and> mtime f = clock w"
    and "path \<noteq> file \<Longrightarrow> files (saveHashringFile e file owner data w) path = files w path"
    and "writes (trace (saveHashringFile e file owner data w)) = writes (trace w) @ [file]"
  using assms
  by (auto simp: saveHashringFile_def WriteFile_def stored_def Chown_def split: option.splits prod.splits)

lemma saveHashringFile_breaks:
  assumes "user_Lookup e owner = Some ug" and "\<not> can_write e file" and "breaks_after e file = Some n"
  shows "\<exists>f. files (saveHashringFile e file owner data w) file = Some f \<and> content f = take n data
           \<and> mtime f = clock w"
    and "writes (trace (saveHashringFile e file owner data w)) = writes (trace w)"
    and "trace (saveHashringFile e file owner data w)
           = trace w @ [Truncated file, LogError (''Cannot save file '' @ file)]"
  using assms
  by (auto simp: saveHashringFile_def WriteFile_def stored_def split: option.splits prod.splits)

lemma saveHashringFile_other:
  "path \<noteq> file \<Longrightarrow> files (saveHashringFile e file owner data w) path = files w path"
  by (auto simp: saveHashringFile_def WriteFile_def stored_def Chown_def
      split: option.splits prod.splits if_splits)

lemma hd_split_from:
  "sep \<noteq> [] \<Longrightarrow>
   split_from sep acc s ! 0 = rev acc @ s \<or>
   (\<exists>rest. rev acc @ s = split_from sep acc s ! 0 @ sep @ rest)"
proof (induction sep acc s rule: split_from.induct)
  case (1 sep acc)
  then show ?case by simp
next
  case (2 sep acc c cs)
  show ?case
  proof (cases "take (length sep) (c # cs) = sep")
    case True
    then have "c # cs = sep @ drop (length sep) (c # cs)"
      by (metis append_take_drop_id)
    with True 2 show ?thesis by auto
  next
    case False
    with 2 show ?thesis by auto
  qed
qed

lemma generatedFile_decomposition:
  "file = strings_Split file ''.json'' ! 0 \<or>
   (\<exists>rest. file = strings_Split file ''.json'' ! 0 @ ''.json'' @ rest)"
  using hd_split_from [of "''.json''" "[]" "file"] by (auto simp: strings_Split_def)

lemma generatedFile_neq: "generatedFile file \<noteq> file"
proof
  define pre where "pre = strings_Split file ''.json'' ! 0"
  assume "generatedFile file = file"
  then have eq: "pre @ ''_generated.json'' = file"
    by (simp add: generatedFile_def pre_def)
  from generatedFile_decomposition [of "file"]
  consider "file = pre" | rest where "file = pre @ ''.json'' @ rest"
    unfolding pre_def by blast
  then show False
  proof cases
    case 1
    with eq have "length (pre @ ''_generated.json'') = length pre" by simp
    then show False by simp
  next
    case 2
    with eq have "pre @ ''_generated.json'' = pre @ ''.json'' @ rest" by simp
    then have "''_generated.json'' = ''.json'' @ rest" by (simp only: same_append_eq)
    then show False by simp
  qed
qed

lemma HasSuffix_append: "HasSuffix (xs @ suffix) suffix"
  by (simp add: HasSuffix_def)

lemma generatedFile_suffix: "HasSuffix (generatedFile file) ''_generated.json''"
  unfolding generatedFile_def by (rule HasSuffix_append)

lemma healthyEndpoint_writes:
  "healthyEndpoint http scheme endpoint timeout portOffset verbose = Inr (sent, evs) \<Longrightarrow> writes evs = []"
  by (auto simp: healthyEndpoint_def Let_def split: if_splits http_result.splits)

lemma probe_all_writes:
  "probe_all http scheme timeout portOffset verbose xs = Inr (queue, evs) \<Longrightarrow> writes evs = []"
proof (induction xs arbitrary: queue evs)
  case Nil
  then show ?case by simp
next
  case (Cons x xs)
  then show ?case
    by (auto split: sum.splits prod.splits dest: healthyEndpoint_writes)
qed

lemma reconcile_all_writes:
  "reconcile_all http scheme timeout portOffset verbose ords hs = Inr (hs', evs) \<Longrightarrow> writes evs = []"
proof (induction hs arbitrary: ords hs' evs)
  case Nil
  then show ?case by simp
next
  case (Cons h hs)
  then show ?case
    by (auto simp: reconcile_def split: sum.splits prod.splits dest: probe_all_writes)
qed

lemma materialize_other:
  "path \<noteq> generatedFile file \<Longrightarrow> files (materialize e file owner verbose hs w) path = files w path"
  by (auto simp: materialize_def saveHashringFile_other split: option.splits)

lemma materialize_cases:
  "files (materialize e file owner verbose hs w) = files w
     \<and> writes (trace (materialize e file owner verbose hs w)) = writes (trace w)
   \<or> (\<exists>data f. json_Marshal e hs = Some data \<and> can_write e (generatedFile file)
        \<and> files (materialize e file owner verbose hs w) (generatedFile file) = Some f
        \<and> content f = data \<and> readable f
        \<and> writes (trace (materialize e file owner verbose hs w)) = writes (trace w) @ [generatedFile file])
   \<or> (\<exists>data f n. json_Marshal e hs = Some data
        \<and> \<not> can_write e (generatedFile file) \<and> breaks_after e (generatedFile file) = Some n
        \<and> files (materialize e file owner verbose hs w) (generatedFile file) = Some f
        \<and> content f = take n data
        \<and> writes (trace (materialize e file owner verbose hs w)) = writes (trace w))"
proof (cases "json_Marshal e hs")
  case None
  then show ?thesis by (simp add: materialize_def)
next
  case (Some data)
  consider (fails) "user_Lookup e owner = None
        \<or> \<not> can_write e (generatedFile file) \<and> breaks_after e (generatedFile file) = None"
    | (saves) ug where "user_Lookup e owner = Some ug" "can_write e (generatedFile file)"
    | (breaks) ug n where "user_Lookup e owner = Some ug" "\<not> can_write e (generatedFile file)"
        "breaks_after e (generatedFile file) = Some n"
    by (cases "user_Lookup e owner"; cases "breaks_after e (generatedFile file)") auto
  then show ?thesis
  proof cases
    case fails
    note f = saveHashringFile_fails [OF fails, where data=data and w=w]
    show ?thesis
      by (auto simp: materialize_def Some f split: option.splits)
  next
    case saves
    note sv = saveHashringFile_saves [OF saves, where data=data and w=w]
    from sv(1) obtain f where f: "files (saveHashringFile e (generatedFile file) owner data w) (generatedFile file) = Some f"
      "content f = data" "readable f = (case files w (generatedFile file) of None \<Rightarrow> True | Some f0 \<Rightarrow> readable f0)"
      by blast
    show ?thesis
      using f sv(3) saves(2)
      by (auto simp: materialize_def Some ReadFile_def split: option.splits if_splits)
  next
    case breaks
    note br = saveHashringFile_breaks [OF breaks, where data=data and w=w]
    from br(1) obtain f where f: "files (saveHashringFile e (generatedFile file) owner data w) (generatedFile file) = Some f"
      "content f = take n data"
      by blast
    show ?thesis
      using f br(2) breaks(2,3)
      by (auto simp: materialize_def Some split: option.splits if_splits)
  qed
qed

lemma materialize_stable:
  assumes "files w1 = files (materialize e file owner verbose hs w)"
    and "can_write e (generatedFile file) \<or> breaks_after e (generatedFile file) = None"
  shows "files (materialize e file owner verbose hs w1) = files w1
     \<and> writes (trace (materialize e file owner verbose hs w1)) = writes (trace w1)"
proof (cases "json_Marshal e hs")
  case None
  then show ?thesis by (simp add: materialize_def)
next
  case (Some data)
  show ?thesis
  proof (cases "user_Lookup e owner = None \<or> \<not> can_write e (generatedFile file)")
    case True
    with assms(2) have "user_Lookup e owner = None
        \<or> \<not> can_write e (generatedFile file) \<and> breaks_after e (generatedFile file) = None"
      by auto
    note fails = saveHashringFile_fails [OF this]
    have "files w1 = files w"
      using assms(1) by (auto simp: materialize_def Some fails split: option.splits)
    then show ?thesis
      by (auto simp: materialize_def Some fails ReadFile_def split: option.splits)
  next
    case False
    then obtain ug where ug: "user_Lookup e owner = Some ug" and cw: "can_write e (generatedFile file)"
      by auto
    note saves = saveHashringFile_saves [OF ug cw, where data=data and w=w]
    from saves(1) obtain f where f: "files (saveHashringFile e (generatedFile file) owner data w) (generatedFile file) = Some f"
      "content f = data" "readable f = (case files w (generatedFile file) of None \<Rightarrow> True | Some f0 \<Rightarrow> readable f0)"
      by blast
    show ?thesis
      using f assms(1)
      by (auto simp: materialize_def Some ReadFile_def split: option.splits if_splits)
  qed
qed

lemma error_lines_append [simp]: "error_lines (xs @ ys) = error_lines xs @ error_lines ys"
  by (simp add: error_lines_def)

lemma error_lines_simps [simp]:
  "error_lines [] = []"
  "error_lines (LogError msg # evs) = msg # error_lines evs"
  "error_lines (Get url # evs) = error_lines evs"
  "error_lines (Written path # evs) = error_lines evs"
  "error_lines (Truncated path # evs) = error_lines evs"
  "error_lines (Chowned path # evs) = error_lines evs"
  "error_lines (LogInfo msg # evs) = error_lines evs"
  "error_lines (LogDebug msg # evs) = error_lines evs"
  "error_lines (LogFatal msg # evs) = error_lines evs"
  "error_lines (Stdout msg # evs) = error_lines evs"
  by (simp_all add: error_lines_def)

lemma checkHashringFile_cases:
  assumes "checkHashringFile e file owner scheme timeout portOffset verbose ords w = Inr w'"
  shows "files w' = files w \<and> writes (trace w') = writes (trace w)
    \<or> (\<exists>body hs hs' evs. ReadFile w file = Some body \<and> json_Unmarshal e body = Some hs
         \<and> reconcile_all (http_Do e) scheme timeout portOffset verbose ords hs = Inr (hs', evs)
         \<and> w' = materialize e file owner verbose hs' (emit evs w))"
  using assms
  by (auto simp: checkHashringFile_def split: option.splits sum.splits prod.splits)



lemma split_from_first_piece:
  "sep \<noteq> [] \<Longrightarrow>
   \<exists>pre rest. split_from sep acc s ! 0 = rev acc @ pre \<and> s = pre @ rest
     \<and> (rest = [] \<or> take (length sep) rest = sep)
     \<and> (\<forall>i < length pre. take (length sep) (drop i s) \<noteq> sep)"
proof (induction sep acc s rule: split_from.induct)
  case (1 sep acc)
  then show ?case by simp
next
  case (2 sep acc c cs)
  show ?case
  proof (cases "take (length sep) (c # cs) = sep")
    case True
    with 2 have "split_from sep acc (c # cs) ! 0 = rev acc @ []" by simp
    with True show ?thesis by (intro exI [of _ "[]"] exI [of _ "c # cs"]) simp
  next
    case False
    then have "\<not> (sep \<noteq> [] \<and> take (length sep) (c # cs) = sep)" by simp
    from "2.IH"(2) [OF this "2.prems"]
    obtain pre rest where IH: "split_from sep (c # acc) cs ! 0 = rev (c # acc) @ pre"
      "cs = pre @ rest" "rest = [] \<or> take (length sep) rest = sep"
      "\<forall>i < length pre. take (length sep) (drop i cs) \<noteq> sep"
      by blast
    have "\<forall>i < length (c # pre). take (length sep) (drop i (c # cs)) \<noteq> sep"
    proof (intro allI impI)
      fix i assume "i < length (c # pre)"
      then show "take (length sep) (drop i (c # cs)) \<noteq> sep"
        using False IH(4) by (cases i) auto
    qed
    moreover from False have "split_from sep acc (c # cs) ! 0 = rev acc @ (c # pre)"
      by (simp add: IH(1))
    moreover have "c # cs = (c # pre) @ rest" by (simp add: IH(2))
    ultimately show ?thesis using IH(3) by blast
  qed
qed

lemma walk_calls_found:
  "walk_calls visits found = (result, ok) \<Longrightarrow> path \<in> set result \<Longrightarrow>
   path \<in> set found \<or>
   (\<exists>mode. Visit path mode \<in> set visits \<and> mode \<noteq> Directory
      \<and> HasSuffix path ''.json'' \<and> \<not> HasSuffix path ''_generated.json'')"
proof (induction visits found arbitrary: result ok rule: walk_calls.induct)
  case (1 found)
  then show ?case by simp
next
  case (2 path' rest found)
  then show ?case by simp
next
  case (3 path' mode rest found)
  from "3.IH" [OF _ "3.prems"(2)] "3.prems"(1)
  show ?case by (auto split: if_splits)
qed

lemma requests_append [simp]: "requests (xs @ ys) = requests xs @ requests ys"
  by (simp add: requests_def)

lemma requests_simps [simp]:
  "requests [] = []"
  "requests (Get url # evs) = url # requests evs"
  "requests (LogFatal msg # evs) = requests evs"
  "requests (LogInfo msg # evs) = requests evs"
  by (simp_all add: requests_def)

lemma no_step_after_exit: "exited s \<Longrightarrow> \<not> sched_step e c s s'"
  by (auto elim: sched_step.cases)

section \<open>Facts about the concrete installation\<close>

lemmas eval_strings = strings_Split_def Atoi_def ParseInt_def ParseUint_def maxUint64_def
  numeric_def is_digit_def digit_val_def show_int_def digit_char_def wrap64_def probe_url_def

lemma demo_ready:
  "ready demo_http ''http'' 5 1 ''a:10901''"
  "\<not> ready demo_http ''http'' 5 1 ''b:10901''"
  "ready demo_http ''http'' 5 1 ''c:10901''"
  by (simp_all add: ready_def demo_http_def eval_strings)

lemma demo_has_port:
  "has_port ''a:10901''" "has_port ''b:10901''" "has_port ''c:10901''"
  by (simp_all add: has_port_def strings_Split_def)

lemma demo_probe:
  "healthyEndpoint demo_http ''http'' ''a:10901'' 5 1 False = Inr (Some ''a:10901'', [Get ''http://a:10902/-/ready''])"
  "healthyEndpoint demo_http ''http'' ''b:10901'' 5 1 False = Inr (None, [Get ''http://b:10902/-/ready'', LogError ''Error sending request to endpoint''])"
  "healthyEndpoint demo_http ''http'' ''c:10901'' 5 1 False = Inr (Some ''c:10901'', [Get ''http://c:10902/-/ready''])"
  by (simp_all add: healthyEndpoint_def demo_http_def eval_strings)

lemma demo_generatedFile: "generatedFile demo_path = demo_generated"
  by (simp add: generatedFile_def demo_path_def demo_generated_def strings_Split_def)

lemma demo_reconcile_all:
  "reconcile_all demo_http ''http'' 5 1 False [[2, 0, 1]] demo_hashrings =
     Inr ([\<lparr>Hashring = [], Tenants = [], Endpoints = [''a:10901'', ''c:10901'']\<rparr>],
          [Get ''http://c:10902/-/ready'', Get ''http://a:10902/-/ready'',
           Get ''http://b:10902/-/ready'', LogError ''Error sending request to endpoint''])"
  by (simp add: demo_hashrings_def reconcile_def in_completion_order_def demo_probe)

lemma demo_Marshal_derived:
  "demo_Marshal [\<lparr>Hashring = [], Tenants = [], Endpoints = [''a:10901'', ''c:10901'']\<rparr>] = Some demo_derived"
  by (simp add: demo_Marshal_def encode_hashring_def encode_strings_def quoted_def demo_derived_def)

lemma demo_paths_differ: "demo_generated \<noteq> demo_path" "demo_path \<noteq> demo_generated"
  by (simp_all add: demo_generated_def demo_path_def)

lemma demo_env_simps:
  "http_Do demo_env = demo_http"
  "json_Unmarshal demo_env demo_source = Some demo_hashrings"
  "json_Marshal demo_env = demo_Marshal"
  "sha256_Sum256 demo_env bytes = bytes"
  "user_Lookup demo_env ''thanos'' = Some (''1000'', ''1000'')"
  "user_Lookup demo_env ''nobody'' = None"
  "can_write demo_env demo_generated"
  "can_chown demo_env path u g"
  "breaks_after demo_env path = None"
  by (simp_all add: demo_env_def demo_generated_def)

lemma demo_ReadFile: "ReadFile demo_world demo_path = Some demo_source"
  by (simp add: ReadFile_def demo_world_def)

lemma demo_materialize:
  "materialize demo_env demo_path ''thanos'' False
     [\<lparr>Hashring = [], Tenants = [], Endpoints = [''a:10901'', ''c:10901'']\<rparr>]
     (emit [Get ''http://c:10902/-/ready'', Get ''http://a:10902/-/ready'',
            Get ''http://b:10902/-/ready'', LogError ''Error sending request to endpoint''] demo_world)
   = demo_world_after"
  by (simp add: materialize_def demo_generatedFile demo_env_simps demo_Marshal_derived
      saveHashringFile_def WriteFile_def stored_def Chown_def emit_def demo_world_def demo_world_after_def
      demo_paths_differ Atoi_def ParseInt_def ParseUint_def maxUint64_def is_digit_def digit_val_def)

lemma demo_check:
  "checkHashringFile demo_env demo_path ''thanos'' ''http'' 5 1 False [[2, 0, 1]] demo_world
     = Inr demo_world_after"
  by (simp only: checkHashringFile_def demo_ReadFile demo_env_simps demo_reconcile_all
      demo_materialize option.case sum.case prod.case)

lemma demo_world_after_files:
  "files demo_world_after demo_generated =
     Some \<lparr>content = demo_derived, readable = True, mtime = 1, uid = 1000, gid = 1000\<rparr>"
  "files demo_world demo_generated = None"
  "writes (trace demo_world_after) = [demo_generated]"
  "writes (trace demo_world) = []"
  by (simp_all add: demo_world_after_def demo_world_def demo_paths_differ)

lemma stale_world_files:
  "files stale_world demo_generated =
     Some \<lparr>content = stale_derived, readable = True, mtime = 1, uid = 1000, gid = 1000\<rparr>"
  "ReadFile stale_world demo_path = Some demo_source"
  "ReadFile stale_world demo_generated = Some stale_derived"
  "stale_derived \<noteq> demo_derived"
  by (simp_all add: stale_world_def ReadFile_def demo_paths_differ stale_derived_def demo_derived_def)

lemma stale_reconcile_all:
  "reconcile_all demo_http ''http'' 5 1 False [[2, 0, 1]] demo_hashrings =
     Inr ([\<lparr>Hashring = [], Tenants = [], Endpoints = [''a:10901'', ''c:10901'']\<rparr>], probe_events)"
  unfolding probe_events_def by (rule demo_reconcile_all)

lemma variant_env_simps:
  "http_Do readonly_env = demo_http"
  "json_Unmarshal readonly_env demo_source = Some demo_hashrings"
  "json_Marshal readonly_env = demo_Marshal"
  "sha256_Sum256 readonly_env bytes = bytes"
  "user_Lookup readonly_env ''thanos'' = Some (''1000'', ''1000'')"
  "\<not> can_write readonly_env path"
  "breaks_after readonly_env path = None"
  "http_Do full_disk_env = demo_http"
  "json_Unmarshal full_disk_env demo_source = Some demo_hashrings"
  "json_Marshal full_disk_env = demo_Marshal"
  "sha256_Sum256 full_disk_env bytes = bytes"
  "user_Lookup full_disk_env ''thanos'' = Some (''1000'', ''1000'')"
  "\<not> can_write full_disk_env path"
  "breaks_after full_disk_env path = Some 0"
  by (simp_all add: readonly_env_def full_disk_env_def demo_env_simps)

lemma stale_check_nobody:
  "checkHashringFile demo_env demo_path ''nobody'' ''http'' 5 1 False [[2, 0, 1]] stale_world
     = Inr (emit [LogError (''Cannot save file '' @ demo_generated)] (emit probe_events stale_world))"
proof -
  have "materialize demo_env demo_path ''nobody'' False
      [\<lparr>Hashring = [], Tenants = [], Endpoints = [''a:10901'', ''c:10901'']\<rparr>]
      (emit probe_events stale_world)
    = emit [LogError (''Cannot save file '' @ demo_generated)] (emit probe_events stale_world)"
    by (simp add: materialize_def demo_generatedFile demo_env_simps demo_Marshal_derived
        stale_world_files saveHashringFile_def)
  then show ?thesis
    by (simp only: checkHashringFile_def stale_world_files demo_env_simps stale_reconcile_all
        option.case sum.case prod.case)
qed

lemma stale_check_readonly:
  "checkHashringFile readonly_env demo_path ''thanos'' ''http'' 5 1 False [[2, 0, 1]] stale_world
     = Inr (emit [LogError (''Cannot save file '' @ demo_generated)] (emit probe_events stale_world))"
proof -
  have "materialize readonly_env demo_path ''thanos'' False
      [\<lparr>Hashring = [], Tenants = [], Endpoints = [''a:10901'', ''c:10901'']\<rparr>]
      (emit probe_events stale_world)
    = emit [LogError (''Cannot save file '' @ demo_generated)] (emit probe_events stale_world)"
    by (simp add: materialize_def demo_generatedFile variant_env_simps demo_Marshal_derived
        stale_world_files saveHashringFile_def WriteFile_def)
  then show ?thesis
    by (simp only: checkHashringFile_def stale_world_files variant_env_simps stale_reconcile_all
        option.case sum.case prod.case)
qed

lemma stale_check_full_disk:
  "checkHashringFile full_disk_env demo_path ''thanos'' ''http'' 5 1 False [[2, 0, 1]] stale_world
     = Inr full_disk_world"
proof -
  have "materialize full_disk_env demo_path ''thanos'' False
      [\<lparr>Hashring = [], Tenants = [], Endpoints = [''a:10901'', ''c:10901'']\<rparr>]
      (emit probe_events stale_world)
    = full_disk_world"
    by (simp add: materialize_def demo_generatedFile variant_env_simps demo_Marshal_derived
        saveHashringFile_def WriteFile_def stored_def emit_def ReadFile_def
        stale_world_def full_disk_world_def demo_paths_differ stale_derived_def demo_derived_def)
  then show ?thesis
    by (simp only: checkHashringFile_def stale_world_files variant_env_simps stale_reconcile_all
        option.case sum.case prod.case)
qed

lemma demo_orders:
  "completion_orders [[2, 0, 1]] demo_hashrings"
  "completion_orders [[1, 2, 0]] demo_hashrings"
  by (simp_all add: completion_orders_def completion_order_def demo_hashrings_def upt_rec)



text \<open>
  Left alone, the run that a tick starts in the example processes its file and writes the
  generated file.
\<close>

lemma demo_materialize_writes:
  assumes "files w demo_generated = None"
  shows "\<exists>f. files (materialize demo_env demo_path ''thanos'' False
            [\<lparr>Hashring = [], Tenants = [], Endpoints = [''a:10901'', ''c:10901'']\<rparr>] w) demo_generated = Some f
          \<and> content f = demo_derived"
  using assms
  by (simp add: materialize_def demo_generatedFile demo_env_simps demo_Marshal_derived
      saveHashringFile_def WriteFile_def stored_def Chown_def)

lemma run_completes_without_signal:
  "\<exists>s. (sched_step demo_env sched_config)\<^sup>*\<^sup>* (sched_start demo_world) s
       \<and> \<not> exited s \<and> in_flight s = None
       \<and> (\<exists>f. files (sched_world s) demo_generated = Some f \<and> content f = demo_derived)"
proof -
  let ?s0 = "sched_start demo_world"
  let ?w1 = "emit [LogInfo ''Tick''] demo_world"
  let ?evs = "[Get ''http://c:10902/-/ready'', Get ''http://a:10902/-/ready'',
           Get ''http://b:10902/-/ready'', LogError ''Error sending request to endpoint'']"
  let ?w2 = "materialize demo_env demo_path ''thanos'' False
            [\<lparr>Hashring = [], Tenants = [], Endpoints = [''a:10901'', ''c:10901'']\<rparr>] (emit ?evs ?w1)"
  let ?s1 = "?s0\<lparr>sched_world := ?w1, in_flight := Some ([demo_path], [[[2, 0, 1]]])\<rparr>"
  let ?s2 = "?s1\<lparr>sched_world := ?w2, in_flight := Some ([], tl [[[2, 0, 1]]])\<rparr>"
  let ?s3 = "?s2\<lparr>in_flight := None\<rparr>"
  have b: "buildFilesList demo_env (flag_directory sched_config) (flag_file sched_config)
      (flag_verbose sched_config) (emit [LogInfo ''Tick''] (sched_world ?s0)) = ([demo_path], ?w1)"
    by (simp add: buildFilesList_def sched_config_def demo_config_def sched_start_def demo_path_def)
  have flags: "flag_owner sched_config = ''thanos''" "flag_endpoint_scheme sched_config = ''http''"
    "flag_endpoint_timeout sched_config = 5" "flag_endpoint_port_offset sched_config = 1"
    "flag_verbose sched_config = False"
    by (simp_all add: sched_config_def demo_config_def)
  have r: "ReadFile ?w1 demo_path = Some demo_source"
    by (simp add: demo_ReadFile)
  have c: "checkHashringFile demo_env demo_path ''thanos'' ''http'' 5 1 False [[2, 0, 1]] ?w1 = Inr ?w2"
    by (simp only: checkHashringFile_def r demo_env_simps demo_reconcile_all
        option.case sum.case prod.case)
  have "sched_step demo_env sched_config ?s0 ?s1"
    by (rule sched_step.tick [OF _ _ b]) (simp_all add: sched_start_def)
  moreover have "sched_step demo_env sched_config ?s1 ?s2"
  proof -
    have p1: "\<not> exited ?s1" by (simp add: sched_start_def)
    have p2: "in_flight ?s1 = Some (demo_path # [], [[[2, 0, 1]]])" by simp
    have p3: "checkHashringFile demo_env demo_path (flag_owner sched_config)
        (flag_endpoint_scheme sched_config) (flag_endpoint_timeout sched_config)
        (flag_endpoint_port_offset sched_config) (flag_verbose sched_config)
        (case [[[2, 0, 1]]] of [] \<Rightarrow> [] | ords # _ \<Rightarrow> ords) (sched_world ?s1) = Inr ?w2"
    proof -
      have sw: "sched_world ?s1 = ?w1" by simp
      show ?thesis unfolding flags list.case sw by (rule c)
    qed
    from sched_step.progress [OF p1 p2 p3] show ?thesis .
  qed
  moreover have "sched_step demo_env sched_config ?s2 ?s3"
    by (rule sched_step.finish [where ordss = "tl [[[2, 0, 1]]]"]) (simp_all add: sched_start_def)
  ultimately have "(sched_step demo_env sched_config)\<^sup>*\<^sup>* ?s0 ?s3"
    by (meson rtranclp.rtrancl_into_rtrancl rtranclp.rtrancl_refl)
  moreover have "\<not> exited ?s3" "in_flight ?s3 = None" by (simp_all add: sched_start_def)
  moreover have "\<exists>f. files (sched_world ?s3) demo_generated = Some f \<and> content f = demo_derived"
    using demo_materialize_writes [of "emit ?evs ?w1"] by (simp add: demo_world_after_files)
  ultimately show ?thesis by blast
qed

section \<open>The claims\<close>

text \<open>
  Claim C10, as amended. The address parsing of the probe is total only for an address
  that contains a colon: \<^verbatim>\<open>healthyEndpoint\<close> panics with an index out of range exactly
  when the address has no colon. The conversion error is discarded: a port component that
  is not a decimal numeral, and that has at most 19 digits before its first other
  character (after an optional sign), is taken as port 0, so that the probe goes to port
  \<open>0 + portOffset\<close>.
\<close>

theorem probe_address_parsing:
  "(healthyEndpoint http scheme endpoint timeout portOffset verbose = Inl IndexOutOfRange
      \<longleftrightarrow> CHR '':'' \<notin> set endpoint)
   \<and> (CHR '':'' \<in> set endpoint \<and> \<not> numeric (strings_Split endpoint '':'' ! 1)
        \<and> length (takeWhile is_digit (unsigned_part (strings_Split endpoint '':'' ! 1))) \<le> 19 \<longrightarrow>
        Atoi (strings_Split endpoint '':'' ! 1) = (0, Some ErrSyntax)
        \<and> probe_url scheme endpoint portOffset =
          scheme @ ''://'' @ (strings_Split endpoint '':'' ! 0) @ '':'' @ show_int (wrap64 (0 + portOffset)) @ ''/-/ready'')"
proof (intro conjI impI)
  show "healthyEndpoint http scheme endpoint timeout portOffset verbose = Inl IndexOutOfRange
      \<longleftrightarrow> CHR '':'' \<notin> set endpoint"
    using has_port_iff [of endpoint]
    by (auto simp: healthyEndpoint_def has_port_def Let_def split: http_result.splits)
next
  assume a: "CHR '':'' \<in> set endpoint \<and> \<not> numeric (strings_Split endpoint '':'' ! 1)
        \<and> length (takeWhile is_digit (unsigned_part (strings_Split endpoint '':'' ! 1))) \<le> 19"
  then show atoi: "Atoi (strings_Split endpoint '':'' ! 1) = (0, Some ErrSyntax)"
    by (simp add: Atoi_syntax_error)
  then show "probe_url scheme endpoint portOffset =
          scheme @ ''://'' @ (strings_Split endpoint '':'' ! 0) @ '':'' @ show_int (wrap64 (0 + portOffset)) @ ''/-/ready''"
    by (simp add: probe_url_def Let_def)
qed

theorem probe_address_parsing_witness:
  "healthyEndpoint demo_http ''http'' ''receiver'' 5 1 False = Inl IndexOutOfRange
   \<and> healthyEndpoint demo_http ''http'' ''a:10901'' 5 1 False \<noteq> Inl IndexOutOfRange
   \<and> \<not> numeric ''http''
   \<and> probe_url ''http'' ''a:http'' 1 = ''http://a:1/-/ready''
   \<and> probe_url ''http'' ''a:80x'' 1 = ''http://a:1/-/ready''"
  using probe_address_parsing [of demo_http "''http''" "''receiver''" 5 1 False]
    probe_address_parsing [of demo_http "''http''" "''a:10901''" 5 1 False]
    probe_address_parsing [of demo_http "''http''" "''a:http''" 5 1 False]
    probe_address_parsing [of demo_http "''http''" "''a:80x''" 5 1 False]
  by (simp add: eval_strings)

text \<open>
  Claim C10 as stated fails for a port component with a long run of digits before its
  first other character: the conversion ends with a range error as soon as the digits
  overflow, the error is discarded, and the port is the largest \<^verbatim>\<open>int\<close>; with the
  offset 1 the sum wraps around.
\<close>

theorem long_port_counterexample:
  "strings_Split ''h:99999999999999999999x'' '':'' = [''h'', ''99999999999999999999x'']
   \<and> \<not> numeric ''99999999999999999999x''
   \<and> Atoi ''99999999999999999999x'' = (9223372036854775807, Some ErrRange)
   \<and> probe_url ''http'' ''h:99999999999999999999x'' 0 = ''http://h:9223372036854775807/-/ready''
   \<and> probe_url ''http'' ''h:99999999999999999999x'' 1 = ''http://h:-9223372036854775808/-/ready''"
  by (simp add: eval_strings)



text \<open>
  Claim C1, as amended. For a hashring definition processed in a pass, with any
  completion order of its probes: when the loop body returns, the hashring is the same
  one with its member list replaced by the sorted list of the addresses whose probes
  returned ready; it does return when every address has a colon; the result is the same
  for every other completion order and every other order of the input addresses; the
  list is sorted and holds each ready address as often as the input lists it, and for an
  input without duplicates it is the sorted set of the ready addresses.
\<close>

theorem reconcile_sorted_ready:
  assumes "completion_order ord (Endpoints h)"
  shows "(\<forall>h' evs. reconcile http scheme timeout portOffset verbose ord h = Inr (h', evs) \<longrightarrow>
            h' = reconciled http scheme timeout portOffset h)
       \<and> (list_all has_port (Endpoints h) \<longrightarrow>
            (\<exists>evs. reconcile http scheme timeout portOffset verbose ord h =
               Inr (reconciled http scheme timeout portOffset h, evs)))
       \<and> (\<forall>ord2 h2. completion_order ord2 (Endpoints h2) \<and> mset (Endpoints h2) = mset (Endpoints h)
              \<and> list_all has_port (Endpoints h) \<longrightarrow>
            (\<exists>evs2. reconcile http scheme timeout portOffset verbose ord2 h2 = 
               Inr (h2\<lparr>Endpoints := Endpoints (reconciled http scheme timeout portOffset h)\<rparr>, evs2)))
       \<and> sorted (Endpoints (reconciled http scheme timeout portOffset h))
       \<and> mset (Endpoints (reconciled http scheme timeout portOffset h)) =
           filter_mset (ready http scheme timeout portOffset) (mset (Endpoints h))
       \<and> (distinct (Endpoints h) \<longrightarrow>
            Endpoints (reconciled http scheme timeout portOffset h) =
              sorted_list_of_set (set (filter (ready http scheme timeout portOffset) (Endpoints h))))"
proof (intro conjI allI impI)
  fix h' evs
  assume r: "reconcile http scheme timeout portOffset verbose ord h = Inr (h', evs)"
  show "h' = reconciled http scheme timeout portOffset h"
  proof (cases "list_all has_port (Endpoints h)")
    case True
    from reconcile_result(1) [OF assms True, of http scheme timeout portOffset verbose] r
    show ?thesis by (auto simp: reconciled_def)
  next
    case False
    from reconcile_result(2) [OF assms False, of http scheme timeout portOffset verbose] r
    show ?thesis by simp
  qed
next
  assume "list_all has_port (Endpoints h)"
  from reconcile_result(1) [OF assms this]
  show "\<exists>evs. reconcile http scheme timeout portOffset verbose ord h =
               Inr (reconciled http scheme timeout portOffset h, evs)"
    by (simp add: reconciled_def)
next
  fix ord2 and h2 :: HashringConfig
  assume a: "completion_order ord2 (Endpoints h2) \<and> mset (Endpoints h2) = mset (Endpoints h)
              \<and> list_all has_port (Endpoints h)"
  then have ports: "list_all has_port (Endpoints h2)"
    using list_all_mset_cong [of "Endpoints h2" "Endpoints h" has_port] by simp
  from a have "sort (filter (ready http scheme timeout portOffset) (Endpoints h2)) =
     sort (filter (ready http scheme timeout portOffset) (Endpoints h))"
    by (intro sort_filter_mset_cong) simp
  moreover from a have "completion_order ord2 (Endpoints h2)" by simp
  note reconcile_result(1) [OF this ports, of http scheme timeout portOffset verbose]
  ultimately
  show "\<exists>evs2. reconcile http scheme timeout portOffset verbose ord2 h2 = 
               Inr (h2\<lparr>Endpoints := Endpoints (reconciled http scheme timeout portOffset h)\<rparr>, evs2)"
    by (simp add: reconciled_def)
next
  show "sorted (Endpoints (reconciled http scheme timeout portOffset h))"
    by (simp add: reconciled_def)
next
  show "mset (Endpoints (reconciled http scheme timeout portOffset h)) =
           filter_mset (ready http scheme timeout portOffset) (mset (Endpoints h))"
    by (simp add: reconciled_def)
next
  assume "distinct (Endpoints h)"
  then have "distinct (filter (ready http scheme timeout portOffset) (Endpoints h))" by simp
  then have "sort (filter (ready http scheme timeout portOffset) (Endpoints h)) =
    sorted_list_of_set (set (filter (ready http scheme timeout portOffset) (Endpoints h)))"
    by (metis sorted_list_of_set_sort_remdups distinct_remdups_id)
  then show "Endpoints (reconciled http scheme timeout portOffset h) =
              sorted_list_of_set (set (filter (ready http scheme timeout portOffset) (Endpoints h)))"
    by (simp add: reconciled_def)
qed

theorem reconcile_sorted_ready_witness:
  "completion_order [2, 0, 1] [''a:10901'', ''b:10901'', ''c:10901'']
   \<and> (\<exists>evs. reconcile demo_http ''http'' 5 1 False [2, 0, 1]
          \<lparr>Hashring = [], Tenants = [], Endpoints = [''a:10901'', ''b:10901'', ''c:10901'']\<rparr>
        = Inr (\<lparr>Hashring = [], Tenants = [], Endpoints = [''a:10901'', ''c:10901'']\<rparr>, evs))
   \<and> (\<exists>evs. reconcile demo_http ''http'' 5 1 False [0, 1, 2]
          \<lparr>Hashring = [], Tenants = [], Endpoints = [''c:10901'', ''b:10901'', ''a:10901'']\<rparr>
        = Inr (\<lparr>Hashring = [], Tenants = [], Endpoints = [''a:10901'', ''c:10901'']\<rparr>, evs))"
proof -
  let ?h = "\<lparr>Hashring = [], Tenants = [], Endpoints = [''a:10901'', ''b:10901'', ''c:10901'']\<rparr>"
  let ?h2 = "\<lparr>Hashring = [], Tenants = [], Endpoints = [''c:10901'', ''b:10901'', ''a:10901'']\<rparr>"
  have ord: "completion_order [2, 0, 1] (Endpoints ?h)"
    by (simp add: completion_order_def upt_rec)
  have ord2: "completion_order [0, 1, 2] (Endpoints ?h2)"
    by (simp add: completion_order_def upt_rec)
  have ports: "list_all has_port (Endpoints ?h)"
    by (simp add: demo_has_port)
  have r: "reconciled demo_http ''http'' 5 1 ?h
      = \<lparr>Hashring = [], Tenants = [], Endpoints = [''a:10901'', ''c:10901'']\<rparr>"
    by (simp add: reconciled_def demo_ready)
  note inst = reconcile_sorted_ready [OF ord, of demo_http "''http''" 5 1 False]
  from inst ports have one: "\<exists>evs. reconcile demo_http ''http'' 5 1 False [2, 0, 1] ?h =
      Inr (reconciled demo_http ''http'' 5 1 ?h, evs)"
    by blast
  from inst have "completion_order [0, 1, 2] (Endpoints ?h2) \<and> mset (Endpoints ?h2) = mset (Endpoints ?h)
      \<and> list_all has_port (Endpoints ?h) \<longrightarrow>
    (\<exists>evs2. reconcile demo_http ''http'' 5 1 False [0, 1, 2] ?h2 =
       Inr (?h2\<lparr>Endpoints := Endpoints (reconciled demo_http ''http'' 5 1 ?h)\<rparr>, evs2))"
    by blast
  with ord2 ports have two: "\<exists>evs2. reconcile demo_http ''http'' 5 1 False [0, 1, 2] ?h2 =
       Inr (?h2\<lparr>Endpoints := Endpoints (reconciled demo_http ''http'' 5 1 ?h)\<rparr>, evs2)"
    by simp
  from ord one two show ?thesis
    unfolding r by simp
qed

text \<open>
  Claim C1 as stated fails when an address is listed twice: both probes of
  \<^verbatim>\<open>a:10901\<close> return ready, the member list holds the address twice, and the sorted
  set of the ready addresses holds it once.
\<close>

theorem reconcile_sorted_set_counterexample:
  "completion_order [0, 1] [''a:10901'', ''a:10901'']
   \<and> reconcile demo_http ''http'' 5 1 False [0, 1]
         \<lparr>Hashring = [], Tenants = [], Endpoints = [''a:10901'', ''a:10901'']\<rparr>
       = Inr (\<lparr>Hashring = [], Tenants = [], Endpoints = [''a:10901'', ''a:10901'']\<rparr>,
              [Get ''http://a:10902/-/ready'', Get ''http://a:10902/-/ready''])
   \<and> sorted_list_of_set (set (filter (ready demo_http ''http'' 5 1) [''a:10901'', ''a:10901'']))
       = [''a:10901'']"
proof (intro conjI)
  show "completion_order [0, 1] [''a:10901'', ''a:10901'']"
    by (simp add: completion_order_def upt_rec)
  show "reconcile demo_http ''http'' 5 1 False [0, 1]
         \<lparr>Hashring = [], Tenants = [], Endpoints = [''a:10901'', ''a:10901'']\<rparr>
       = Inr (\<lparr>Hashring = [], Tenants = [], Endpoints = [''a:10901'', ''a:10901'']\<rparr>,
              [Get ''http://a:10902/-/ready'', Get ''http://a:10902/-/ready''])"
    by (simp add: reconcile_def in_completion_order_def demo_probe)
  show "sorted_list_of_set (set (filter (ready demo_http ''http'' 5 1) [''a:10901'', ''a:10901'']))
       = [''a:10901'']"
    by (simp add: demo_ready)
qed

text \<open>
  Claim C6. Reconciliation re-derives only the member lists: the list that the loop
  returns has, position by position, the hashring identifier and the tenants of the list
  decoded from the source file; and whenever a pass changes the file system, the
  generated file holds the encoding of such a list (or, when the write failed after the
  file was opened, the bytes of that encoding written before the error).
\<close>

theorem reconciliation_frame:
  "(\<forall>hashrings' evs.
      reconcile_all http scheme timeout portOffset verbose ords hashrings = Inr (hashrings', evs) \<longrightarrow>
      list_all2 (\<lambda>h h'. Hashring h' = Hashring h \<and> Tenants h' = Tenants h) hashrings hashrings')
   \<and> (\<forall>w'. checkHashringFile e file owner scheme timeout portOffset verbose ords w = Inr w' \<longrightarrow>
        files w' = files w \<or>
        (\<exists>body hs hs' data f. ReadFile w file = Some body \<and> json_Unmarshal e body = Some hs \<and>
           list_all2 (\<lambda>h h'. Hashring h' = Hashring h \<and> Tenants h' = Tenants h) hs hs' \<and>
           json_Marshal e hs' = Some data \<and>
           files w' (generatedFile file) = Some f \<and>
           (if can_write e (generatedFile file) then content f = data
            else \<exists>n. breaks_after e (generatedFile file) = Some n \<and> content f = take n data)))"
proof (intro conjI allI impI)
  fix hashrings' evs
  assume "reconcile_all http scheme timeout portOffset verbose ords hashrings = Inr (hashrings', evs)"
  from reconcile_all_frame [OF this]
  show "list_all2 (\<lambda>h h'. Hashring h' = Hashring h \<and> Tenants h' = Tenants h) hashrings hashrings'"
    by (rule list_all2_mono) auto
next
  fix w'
  assume "checkHashringFile e file owner scheme timeout portOffset verbose ords w = Inr w'"
  from checkHashringFile_cases [OF this]
  consider "files w' = files w"
    | body hs hs' evs where "ReadFile w file = Some body" "json_Unmarshal e body = Some hs"
        "reconcile_all (http_Do e) scheme timeout portOffset verbose ords hs = Inr (hs', evs)"
        "w' = materialize e file owner verbose hs' (emit evs w)"
    by blast
  then show "files w' = files w \<or>
        (\<exists>body hs hs' data f. ReadFile w file = Some body \<and> json_Unmarshal e body = Some hs \<and>
           list_all2 (\<lambda>h h'. Hashring h' = Hashring h \<and> Tenants h' = Tenants h) hs hs' \<and>
           json_Marshal e hs' = Some data \<and>
           files w' (generatedFile file) = Some f \<and>
           (if can_write e (generatedFile file) then content f = data
            else \<exists>n. breaks_after e (generatedFile file) = Some n \<and> content f = take n data))"
  proof cases
    case 1
    then show ?thesis by simp
  next
    case 2
    from reconcile_all_frame [OF 2(3)]
    have frame: "list_all2 (\<lambda>h h'. Hashring h' = Hashring h \<and> Tenants h' = Tenants h) hs hs'"
      by (rule list_all2_mono) auto
    from materialize_cases [of e "file" owner verbose hs' "emit evs w"]
    consider (same) "files w' = files w"
      | (saved) data f where "json_Marshal e hs' = Some data" "can_write e (generatedFile file)"
          "files w' (generatedFile file) = Some f" "content f = data"
      | (broken) data f n where "json_Marshal e hs' = Some data" "\<not> can_write e (generatedFile file)"
          "breaks_after e (generatedFile file) = Some n" "files w' (generatedFile file) = Some f"
          "content f = take n data"
      unfolding 2(4) by auto
    then show ?thesis
    proof cases
      case same
      then show ?thesis by simp
    next
      case saved
      with 2(1,2) frame show ?thesis by auto
    next
      case broken
      with 2(1,2) frame show ?thesis by auto
    qed
  qed
qed

theorem reconciliation_frame_witness:
  "reconcile_all demo_http ''http'' 5 1 False [[2, 0, 1]] demo_hashrings =
     Inr ([\<lparr>Hashring = [], Tenants = [], Endpoints = [''a:10901'', ''c:10901'']\<rparr>],
          [Get ''http://c:10902/-/ready'', Get ''http://a:10902/-/ready'',
           Get ''http://b:10902/-/ready'', LogError ''Error sending request to endpoint''])
   \<and> list_all2 (\<lambda>h h'. Hashring h' = Hashring h \<and> Tenants h' = Tenants h) demo_hashrings
       [\<lparr>Hashring = [], Tenants = [], Endpoints = [''a:10901'', ''c:10901'']\<rparr>]
   \<and> checkHashringFile demo_env demo_path ''thanos'' ''http'' 5 1 False [[2, 0, 1]] demo_world
       = Inr demo_world_after
   \<and> (\<exists>hs'. list_all2 (\<lambda>h h'. Hashring h' = Hashring h \<and> Tenants h' = Tenants h) demo_hashrings hs'
         \<and> json_Marshal demo_env hs' = Some demo_derived)"
proof -
  note inst = reconciliation_frame [of demo_http "''http''" 5 1 False "[[2, 0, 1]]" demo_hashrings
      demo_env demo_path "''thanos''" demo_world]
  from inst demo_reconcile_all
  have one: "list_all2 (\<lambda>h h'. Hashring h' = Hashring h \<and> Tenants h' = Tenants h) demo_hashrings
       [\<lparr>Hashring = [], Tenants = [], Endpoints = [''a:10901'', ''c:10901'']\<rparr>]"
    by blast
  have "files demo_world_after \<noteq> files demo_world"
    using demo_world_after_files(1,2) by (metis option.distinct(1))
  with inst demo_check
  have "\<exists>body hs hs' data f. ReadFile demo_world demo_path = Some body
        \<and> json_Unmarshal demo_env body = Some hs
        \<and> list_all2 (\<lambda>h h'. Hashring h' = Hashring h \<and> Tenants h' = Tenants h) hs hs'
        \<and> json_Marshal demo_env hs' = Some data
        \<and> files demo_world_after (generatedFile demo_path) = Some f
        \<and> (if can_write demo_env (generatedFile demo_path) then content f = data
            else \<exists>n. breaks_after demo_env (generatedFile demo_path) = Some n \<and> content f = take n data)"
    by blast
  then have two: "\<exists>hs'. list_all2 (\<lambda>h h'. Hashring h' = Hashring h \<and> Tenants h' = Tenants h) demo_hashrings hs'
         \<and> json_Marshal demo_env hs' = Some demo_derived"
    by (auto simp: demo_ReadFile demo_env_simps demo_generatedFile demo_world_after_files)
  from one two demo_reconcile_all demo_check show ?thesis by simp
qed

text \<open>
  Claim C4, as amended. When the owner cannot be looked up or the generated file cannot be
  opened for writing, saving logs an error and leaves every file as it was: a generated
  file that existed keeps its bytes, its modification time and its owner; a pass over the
  hashring file then ends normally with the file system unchanged and nothing written,
  and the run goes on with the remaining files.
\<close>

theorem write_failure_leaves_file:
  assumes "user_Lookup e owner = None
     \<or> \<not> can_write e (generatedFile file) \<and> breaks_after e (generatedFile file) = None"
  shows "files (saveHashringFile e (generatedFile file) owner data w) = files w
       \<and> error_lines (trace (saveHashringFile e (generatedFile file) owner data w))
           = error_lines (trace w) @ [''Cannot save file '' @ generatedFile file]
       \<and> (\<forall>w'. checkHashringFile e file owner scheme timeout portOffset verbose ords w = Inr w' \<longrightarrow>
             files w' = files w \<and> writes (trace w') = writes (trace w)
             \<and> run e (file # rest) owner scheme timeout portOffset verbose (ords # ordss) w
                 = run e rest owner scheme timeout portOffset verbose ordss w')"
proof (intro conjI allI impI)
  note fails = saveHashringFile_fails [OF assms]
  show "files (saveHashringFile e (generatedFile file) owner data w) = files w"
    by (rule fails(1))
  show "error_lines (trace (saveHashringFile e (generatedFile file) owner data w))
           = error_lines (trace w) @ [''Cannot save file '' @ generatedFile file]"
    by (simp add: fails(3))
  fix w'
  assume r: "checkHashringFile e file owner scheme timeout portOffset verbose ords w = Inr w'"
  have m: "files (materialize e file owner verbose hs' w0) = files w0
      \<and> writes (trace (materialize e file owner verbose hs' w0)) = writes (trace w0)" for hs' w0
    by (auto simp: materialize_def fails split: option.splits)
  from checkHashringFile_cases [OF r] m
  show "files w' = files w" and "writes (trace w') = writes (trace w)"
    by (auto dest: reconcile_all_writes)
  from r show "run e (file # rest) owner scheme timeout portOffset verbose (ords # ordss) w
                 = run e rest owner scheme timeout portOffset verbose ordss w'"
    by simp
qed

theorem write_failure_leaves_file_witness:
  "files stale_world demo_generated =
     Some \<lparr>content = stale_derived, readable = True, mtime = 1, uid = 1000, gid = 1000\<rparr>
   \<and> user_Lookup demo_env ''nobody'' = None
   \<and> (\<exists>w'. checkHashringFile demo_env demo_path ''nobody'' ''http'' 5 1 False [[2, 0, 1]] stale_world = Inr w'
         \<and> files w' demo_generated =
             Some \<lparr>content = stale_derived, readable = True, mtime = 1, uid = 1000, gid = 1000\<rparr>
         \<and> writes (trace w') = []
         \<and> last (trace w') = LogError (''Cannot save file '' @ demo_generated))
   \<and> \<not> can_write readonly_env (generatedFile demo_path)
   \<and> breaks_after readonly_env (generatedFile demo_path) = None
   \<and> (\<exists>w'. checkHashringFile readonly_env demo_path ''thanos'' ''http'' 5 1 False [[2, 0, 1]] stale_world = Inr w'
         \<and> files w' demo_generated =
             Some \<lparr>content = stale_derived, readable = True, mtime = 1, uid = 1000, gid = 1000\<rparr>
         \<and> writes (trace w') = []
         \<and> last (trace w') = LogError (''Cannot save file '' @ demo_generated))"
proof -
  have a: "user_Lookup demo_env ''nobody'' = None
      \<or> \<not> can_write demo_env (generatedFile demo_path) \<and> breaks_after demo_env (generatedFile demo_path) = None"
    by (simp add: demo_env_simps)
  have b: "user_Lookup readonly_env ''thanos'' = None
      \<or> \<not> can_write readonly_env (generatedFile demo_path)
        \<and> breaks_after readonly_env (generatedFile demo_path) = None"
    by (simp add: variant_env_simps)
  have t: "writes (trace stale_world) = []"
    by (simp add: stale_world_def)
  note one = write_failure_leaves_file [OF a, of stale_derived stale_world "''http''" 5 1 False "[[2, 0, 1]]" "[]" "[]"]
  note two = write_failure_leaves_file [OF b, of stale_derived stale_world "''http''" 5 1 False "[[2, 0, 1]]" "[]" "[]"]
  from one stale_check_nobody
  have "files (emit [LogError (''Cannot save file '' @ demo_generated)] (emit probe_events stale_world))
        = files stale_world
      \<and> writes (trace (emit [LogError (''Cannot save file '' @ demo_generated)] (emit probe_events stale_world)))
        = writes (trace stale_world)"
    by blast
  with stale_check_nobody
  have first: "\<exists>w'. checkHashringFile demo_env demo_path ''nobody'' ''http'' 5 1 False [[2, 0, 1]] stale_world = Inr w'
         \<and> files w' demo_generated =
             Some \<lparr>content = stale_derived, readable = True, mtime = 1, uid = 1000, gid = 1000\<rparr>
         \<and> writes (trace w') = []
         \<and> last (trace w') = LogError (''Cannot save file '' @ demo_generated)"
    by (simp add: stale_world_files t)
  from two stale_check_readonly
  have "files (emit [LogError (''Cannot save file '' @ demo_generated)] (emit probe_events stale_world))
        = files stale_world
      \<and> writes (trace (emit [LogError (''Cannot save file '' @ demo_generated)] (emit probe_events stale_world)))
        = writes (trace stale_world)"
    by blast
  with stale_check_readonly
  have second: "\<exists>w'. checkHashringFile readonly_env demo_path ''thanos'' ''http'' 5 1 False [[2, 0, 1]] stale_world = Inr w'
         \<and> files w' demo_generated =
             Some \<lparr>content = stale_derived, readable = True, mtime = 1, uid = 1000, gid = 1000\<rparr>
         \<and> writes (trace w') = []
         \<and> last (trace w') = LogError (''Cannot save file '' @ demo_generated)"
    by (simp add: stale_world_files t)
  from first second show ?thesis
    by (simp add: stale_world_files demo_env_simps variant_env_simps)
qed

text \<open>
  Claim C4 as stated fails for a write that fails after the file was opened: on a full
  disk the owner is found, \<^verbatim>\<open>ioutil.WriteFile\<close> opens and truncates the generated file,
  the write fails, the error is logged, and the bytes the file held before are gone.
\<close>

theorem write_error_after_open_counterexample:
  "files stale_world demo_generated =
     Some \<lparr>content = stale_derived, readable = True, mtime = 1, uid = 1000, gid = 1000\<rparr>
   \<and> user_Lookup full_disk_env ''thanos'' = Some (''1000'', ''1000'')
   \<and> checkHashringFile full_disk_env demo_path ''thanos'' ''http'' 5 1 False [[2, 0, 1]] stale_world
       = Inr full_disk_world
   \<and> files full_disk_world demo_generated =
       Some \<lparr>content = [], readable = True, mtime = 2, uid = 1000, gid = 1000\<rparr>
   \<and> last (trace full_disk_world) = LogError (''Cannot save file '' @ demo_generated)
   \<and> stale_derived \<noteq> []"
proof (intro conjI)
  show "files stale_world demo_generated =
     Some \<lparr>content = stale_derived, readable = True, mtime = 1, uid = 1000, gid = 1000\<rparr>"
    by (rule stale_world_files(1))
  show "user_Lookup full_disk_env ''thanos'' = Some (''1000'', ''1000'')"
    by (rule variant_env_simps)
  show "checkHashringFile full_disk_env demo_path ''thanos'' ''http'' 5 1 False [[2, 0, 1]] stale_world
       = Inr full_disk_world"
    by (rule stale_check_full_disk)
  show "files full_disk_world demo_generated =
       Some \<lparr>content = [], readable = True, mtime = 2, uid = 1000, gid = 1000\<rparr>"
    by (simp add: full_disk_world_def)
  show "last (trace full_disk_world) = LogError (''Cannot save file '' @ demo_generated)"
    by (simp add: full_disk_world_def)
  show "stale_derived \<noteq> []"
    by (simp add: stale_derived_def)
qed



text \<open>
  Claim C2. Materialization performs no write when the generated file exists, can be read
  and has the digest of the newly encoded configuration: the files, the clock that stamps
  modification times and the list of writes are unchanged. And for two passes in a row
  over a hashring file with the same readiness outcomes, whatever the completion orders,
  where a write to the generated file succeeds or fails before the file is opened: the
  first pass writes at most once, and exactly once when there is no generated file yet,
  the owner is known, the configuration can be encoded and the write succeeds; the second
  pass ends normally, writes nothing and leaves every file (bytes, modification time,
  owner) as the first pass left it.
\<close>

theorem unchanged_digest_no_write:
  "(\<forall>f data. json_Marshal e hs = Some data \<and> files w (generatedFile file) = Some f \<and> readable f
        \<and> sha256_Sum256 e (content f) = sha256_Sum256 e data \<longrightarrow>
      files (materialize e file owner verbose hs w) = files w
      \<and> clock (materialize e file owner verbose hs w) = clock w
      \<and> writes (trace (materialize e file owner verbose hs w)) = writes (trace w))
   \<and> (\<forall>body hashrings w1. ReadFile w file = Some body \<and> json_Unmarshal e body = Some hashrings
        \<and> completion_orders ords1 hashrings \<and> completion_orders ords2 hashrings
        \<and> (can_write e (generatedFile file) \<or> breaks_after e (generatedFile file) = None)
        \<and> checkHashringFile e file owner scheme timeout portOffset verbose ords1 w = Inr w1 \<longrightarrow>
      (writes (trace w1) = writes (trace w) \<or> writes (trace w1) = writes (trace w) @ [generatedFile file])
      \<and> (files w (generatedFile file) = None \<and> can_write e (generatedFile file)
            \<and> user_Lookup e owner \<noteq> None
            \<and> json_Marshal e (map (reconciled (http_Do e) scheme timeout portOffset) hashrings) \<noteq> None \<longrightarrow>
          writes (trace w1) = writes (trace w) @ [generatedFile file])
      \<and> (\<exists>w2. checkHashringFile e file owner scheme timeout portOffset verbose ords2 w1 = Inr w2
            \<and> files w2 = files w1 \<and> writes (trace w2) = writes (trace w1)))"
proof (intro conjI allI impI)
  fix f data
  assume a: "json_Marshal e hs = Some data \<and> files w (generatedFile file) = Some f \<and> readable f
        \<and> sha256_Sum256 e (content f) = sha256_Sum256 e data"
  then show "files (materialize e file owner verbose hs w) = files w"
    and "clock (materialize e file owner verbose hs w) = clock w"
    and "writes (trace (materialize e file owner verbose hs w)) = writes (trace w)"
    by (simp_all add: materialize_def ReadFile_def)
next
  fix body hashrings w1
  assume a: "ReadFile w file = Some body \<and> json_Unmarshal e body = Some hashrings
        \<and> completion_orders ords1 hashrings \<and> completion_orders ords2 hashrings
        \<and> (can_write e (generatedFile file) \<or> breaks_after e (generatedFile file) = None)
        \<and> checkHashringFile e file owner scheme timeout portOffset verbose ords1 w = Inr w1"
  then have rf: "ReadFile w file = Some body" and uf: "json_Unmarshal e body = Some hashrings"
    and o1: "completion_orders ords1 hashrings" and o2: "completion_orders ords2 hashrings"
    and c1: "checkHashringFile e file owner scheme timeout portOffset verbose ords1 w = Inr w1"
    and cw: "can_write e (generatedFile file) \<or> breaks_after e (generatedFile file) = None"
    by simp_all
  let ?hs' = "map (reconciled (http_Do e) scheme timeout portOffset) hashrings"
  have ports: "list_all (\<lambda>h. list_all has_port (Endpoints h)) hashrings"
  proof (rule ccontr)
    assume "\<not> list_all (\<lambda>h. list_all has_port (Endpoints h)) hashrings"
    from reconcile_all_panic [OF o1 this, of "http_Do e" scheme timeout portOffset verbose] c1
    show False by (simp add: checkHashringFile_def rf uf)
  qed
  from reconcile_all_result [OF o1 ports, of "http_Do e" scheme timeout portOffset verbose]
  obtain evs1 where r1: "reconcile_all (http_Do e) scheme timeout portOffset verbose ords1 hashrings = Inr (?hs', evs1)"
    by blast
  from reconcile_all_result [OF o2 ports, of "http_Do e" scheme timeout portOffset verbose]
  obtain evs2 where r2: "reconcile_all (http_Do e) scheme timeout portOffset verbose ords2 hashrings = Inr (?hs', evs2)"
    by blast
  from c1 have w1: "w1 = materialize e file owner verbose ?hs' (emit evs1 w)"
    by (simp add: checkHashringFile_def rf uf r1)
  from materialize_cases [of e "file" owner verbose ?hs' "emit evs1 w"] reconcile_all_writes [OF r1]
  show "writes (trace w1) = writes (trace w) \<or> writes (trace w1) = writes (trace w) @ [generatedFile file]"
    by (auto simp: w1)
  have "files w1 file = files w file"
    using generatedFile_neq [of "file"] by (simp add: w1 materialize_other)
  then have "ReadFile w1 file = Some body"
    using rf by (simp add: ReadFile_def)
  then
  have c2: "checkHashringFile e file owner scheme timeout portOffset verbose ords2 w1
      = Inr (materialize e file owner verbose ?hs' (emit evs2 w1))"
    by (simp add: checkHashringFile_def uf r2)
  have "files (emit evs2 w1) = files (materialize e file owner verbose ?hs' (emit evs1 w))"
    by (simp add: w1)
  from materialize_stable [OF this cw] reconcile_all_writes [OF r2]
  have "files (materialize e file owner verbose ?hs' (emit evs2 w1)) = files w1
     \<and> writes (trace (materialize e file owner verbose ?hs' (emit evs2 w1))) = writes (trace w1)"
    by simp
  with c2 show "\<exists>w2. checkHashringFile e file owner scheme timeout portOffset verbose ords2 w1 = Inr w2
            \<and> files w2 = files w1 \<and> writes (trace w2) = writes (trace w1)"
    by simp
  assume first: "files w (generatedFile file) = None \<and> can_write e (generatedFile file)
            \<and> user_Lookup e owner \<noteq> None
            \<and> json_Marshal e (map (reconciled (http_Do e) scheme timeout portOffset) hashrings) \<noteq> None"
  then obtain ug data where ug: "user_Lookup e owner = Some ug"
    and data: "json_Marshal e ?hs' = Some data"
    by auto
  from first have "w1 = saveHashringFile e (generatedFile file) owner data (emit evs1 w)"
    by (simp add: w1 materialize_def data)
  with saveHashringFile_saves(3) [OF ug, of "generatedFile file" data "emit evs1 w"] first
    reconcile_all_writes [OF r1]
  show "writes (trace w1) = writes (trace w) @ [generatedFile file]"
    by simp
qed

theorem unchanged_digest_no_write_witness:
  "completion_orders [[2, 0, 1]] demo_hashrings \<and> completion_orders [[1, 2, 0]] demo_hashrings
   \<and> checkHashringFile demo_env demo_path ''thanos'' ''http'' 5 1 False [[2, 0, 1]] demo_world
       = Inr demo_world_after
   \<and> writes (trace demo_world_after) = [demo_generated]
   \<and> (\<exists>w2. checkHashringFile demo_env demo_path ''thanos'' ''http'' 5 1 False [[1, 2, 0]] demo_world_after = Inr w2
         \<and> files w2 = files demo_world_after \<and> writes (trace w2) = [demo_generated])
   \<and> files (materialize demo_env demo_path ''thanos'' False
        [\<lparr>Hashring = [], Tenants = [], Endpoints = [''a:10901'', ''c:10901'']\<rparr>] demo_world_after)
       = files demo_world_after"
proof -
  note inst = unchanged_digest_no_write [of demo_env
      "[\<lparr>Hashring = [], Tenants = [], Endpoints = [''a:10901'', ''c:10901'']\<rparr>]" demo_world_after
      demo_path "''thanos''" False "[[2, 0, 1]]" "[[1, 2, 0]]" "''http''" 5 1]
  note inst0 = unchanged_digest_no_write [of demo_env
      "[\<lparr>Hashring = [], Tenants = [], Endpoints = [''a:10901'', ''c:10901'']\<rparr>]" demo_world
      demo_path "''thanos''" False "[[2, 0, 1]]" "[[1, 2, 0]]" "''http''" 5 1]
  have cw: "can_write demo_env (generatedFile demo_path)
      \<or> breaks_after demo_env (generatedFile demo_path) = None"
    by (simp add: demo_env_simps)
  from inst0 demo_ReadFile demo_env_simps(2) demo_orders demo_check cw
  have two: "\<exists>w2. checkHashringFile demo_env demo_path ''thanos'' ''http'' 5 1 False [[1, 2, 0]] demo_world_after = Inr w2
         \<and> files w2 = files demo_world_after \<and> writes (trace w2) = writes (trace demo_world_after)"
    by blast
  from inst have "json_Marshal demo_env [\<lparr>Hashring = [], Tenants = [], Endpoints = [''a:10901'', ''c:10901'']\<rparr>] = Some demo_derived
      \<and> files demo_world_after (generatedFile demo_path)
           = Some \<lparr>content = demo_derived, readable = True, mtime = 1, uid = 1000, gid = 1000\<rparr>
      \<and> readable \<lparr>content = demo_derived, readable = True, mtime = 1, uid = 1000, gid = 1000\<rparr>
      \<and> sha256_Sum256 demo_env (content \<lparr>content = demo_derived, readable = True, mtime = 1, uid = 1000, gid = 1000\<rparr>)
           = sha256_Sum256 demo_env demo_derived \<longrightarrow>
    files (materialize demo_env demo_path ''thanos'' False
        [\<lparr>Hashring = [], Tenants = [], Endpoints = [''a:10901'', ''c:10901'']\<rparr>] demo_world_after)
       = files demo_world_after"
    by blast
  then have three: "files (materialize demo_env demo_path ''thanos'' False
        [\<lparr>Hashring = [], Tenants = [], Endpoints = [''a:10901'', ''c:10901'']\<rparr>] demo_world_after)
       = files demo_world_after"
    by (simp add: demo_env_simps demo_Marshal_derived demo_generatedFile demo_world_after_files)
  from two three demo_orders demo_check show ?thesis
    by (simp add: demo_world_after_files)
qed

text \<open>
  Claim C9, as amended. Directory discovery returns only entries that are not directories,
  whose path ends in \<^verbatim>\<open>.json\<close> and does not end in \<^verbatim>\<open>_generated.json\<close>; the name
  of the generated file is the part of the source path before its first \<^verbatim>\<open>.json\<close> (the
  whole path when there is none) followed by \<^verbatim>\<open>_generated.json\<close>; therefore a
  generated file is never among the files that discovery returns, in any state of the
  file system.
\<close>

theorem generated_never_source:
  "(\<forall>path \<in> set (fst (listHashringFiles e directory w)).
       (\<exists>mode. Visit path mode \<in> set (filepath_Walk e (files w) directory) \<and> mode \<noteq> Directory)
       \<and> HasSuffix path ''.json'' \<and> \<not> HasSuffix path ''_generated.json'')
   \<and> (\<exists>pre rest. generatedFile file = pre @ ''_generated.json'' \<and> file = pre @ rest
         \<and> (rest = [] \<or> take 5 rest = ''.json'')
         \<and> (\<forall>i < length pre. take 5 (drop i file) \<noteq> ''.json''))
   \<and> HasSuffix (generatedFile file) ''_generated.json''
   \<and> generatedFile file \<notin> set (fst (listHashringFiles e directory w))"
proof -
  have found: "(\<exists>mode. Visit path mode \<in> set (filepath_Walk e (files w) directory) \<and> mode \<noteq> Directory)
       \<and> HasSuffix path ''.json'' \<and> \<not> HasSuffix path ''_generated.json''"
    if "path \<in> set (fst (listHashringFiles e directory w))" for path
  proof -
    obtain result ok where r: "walk_calls (filepath_Walk e (files w) directory) [] = (result, ok)"
      by (cases "walk_calls (filepath_Walk e (files w) directory) []") auto
    with that have "path \<in> set result" by (simp add: listHashringFiles_def)
    from walk_calls_found [OF r this] show ?thesis by auto
  qed
  have len: "length ''.json'' = 5" and ne: "''.json'' \<noteq> []" by simp_all
  from split_from_first_piece [OF ne, of "[]" "file"]
  obtain pre rest where p: "split_from ''.json'' [] file ! 0 = rev [] @ pre" "file = pre @ rest"
    "rest = [] \<or> take (length ''.json'') rest = ''.json''"
    "\<forall>i < length pre. take (length ''.json'') (drop i file) \<noteq> ''.json''"
    by blast
  from p(1) have "generatedFile file = pre @ ''_generated.json''"
    by (simp add: generatedFile_def strings_Split_def)
  with p(2,3,4)
  have name: "\<exists>pre rest. generatedFile file = pre @ ''_generated.json'' \<and> file = pre @ rest
         \<and> (rest = [] \<or> take 5 rest = ''.json'')
         \<and> (\<forall>i < length pre. take 5 (drop i file) \<noteq> ''.json'')"
    unfolding len by blast
  from found generatedFile_suffix [of "file"]
  have "generatedFile file \<notin> set (fst (listHashringFiles e directory w))" by blast
  with found name generatedFile_suffix [of "file"] show ?thesis by blast
qed

theorem generated_never_source_witness:
  "fst (listHashringFiles demo_env ''/etc/thanos'' demo_world_after)
     = [''/etc/thanos/current.json'', ''/etc/thanos/hashring.json'']
   \<and> generatedFile ''/etc/thanos/hashring.json'' = ''/etc/thanos/hashring_generated.json''
   \<and> generatedFile ''/etc/thanos/hashring.json'' \<notin> set (fst (listHashringFiles demo_env ''/etc/thanos'' demo_world_after))"
  using generated_never_source [of demo_env "''/etc/thanos''" demo_world_after "''/etc/thanos/hashring.json''"]
  by (simp add: listHashringFiles_def demo_env_def HasSuffix_def generatedFile_def strings_Split_def)

text \<open>
  Claim C9 as stated fails for an entry that is neither a directory nor a regular file:
  the symbolic link \<^verbatim>\<open>current.json\<close> is returned, because only \<^verbatim>\<open>IsDir\<close> is
  tested.
\<close>

theorem regular_files_counterexample:
  "fst (listHashringFiles demo_env ''/etc/thanos'' demo_world)
     = [''/etc/thanos/current.json'', ''/etc/thanos/hashring.json'']
   \<and> filepath_Walk demo_env (files demo_world) ''/etc/thanos'' ! 1 = Visit ''/etc/thanos/current.json'' Symlink
   \<and> Visit ''/etc/thanos/current.json'' Regular \<notin> set (filepath_Walk demo_env (files demo_world) ''/etc/thanos'')"
  by (simp add: listHashringFiles_def demo_env_def HasSuffix_def)




text \<open>
  Claim C8 does not hold of the program: a signal that arrives while a run is in flight
  ends the process with the run unfinished. After the tick, the signal and the return of
  \<^verbatim>\<open>main\<close>, the file of the run has not been processed, no request has been issued, the
  generated file does not exist, and no further step is possible. (Left alone, the same
  run writes the generated file, as shown above.)
\<close>

theorem signal_ends_run_in_flight:
  "\<exists>s. (sched_step demo_env sched_config)\<^sup>*\<^sup>* (sched_start demo_world) s
       \<and> exited s \<and> in_flight s = Some ([demo_path], [[[2, 0, 1]]])
       \<and> files (sched_world s) demo_generated = None
       \<and> requests (trace (sched_world s)) = []
       \<and> (\<forall>s'. \<not> sched_step demo_env sched_config s s')"
proof -
  let ?s0 = "sched_start demo_world"
  let ?w1 = "emit [LogInfo ''Tick''] demo_world"
  let ?s1 = "?s0\<lparr>sched_world := ?w1, in_flight := Some ([demo_path], [[[2, 0, 1]]])\<rparr>"
  let ?s2 = "?s1\<lparr>signalDone := True\<rparr>"
  let ?s3 = "?s2\<lparr>sched_world := emit [LogInfo ''Scheduler Stopped...''] (sched_world ?s2), exited := True\<rparr>"
  have b: "buildFilesList demo_env (flag_directory sched_config) (flag_file sched_config)
      (flag_verbose sched_config) (emit [LogInfo ''Tick''] (sched_world ?s0)) = ([demo_path], ?w1)"
    by (simp add: buildFilesList_def sched_config_def demo_config_def sched_start_def demo_path_def)
  have "sched_step demo_env sched_config ?s0 ?s1"
    by (rule sched_step.tick [OF _ _ b]) (simp_all add: sched_start_def)
  moreover have "sched_step demo_env sched_config ?s1 ?s2"
    by (rule sched_step.signal) (simp_all add: sched_start_def)
  moreover have "sched_step demo_env sched_config ?s2 ?s3"
    by (rule sched_step.stop) (simp_all add: sched_start_def)
  ultimately have "(sched_step demo_env sched_config)\<^sup>*\<^sup>* ?s0 ?s3"
    by (meson rtranclp.rtrancl_into_rtrancl rtranclp.rtrancl_refl)
  moreover have "exited ?s3" by simp
  moreover have "in_flight ?s3 = Some ([demo_path], [[[2, 0, 1]]])" by simp
  moreover have "files (sched_world ?s3) demo_generated = None"
    by (simp add: sched_start_def demo_world_after_files)
  moreover have "requests (trace (sched_world ?s3)) = []"
    by (simp add: sched_start_def demo_world_def)
  moreover have "\<forall>s'. \<not> sched_step demo_env sched_config ?s3 s'"
    by (simp add: no_step_after_exit)
  ultimately show ?thesis by blast
qed

end
